theory Spec2Isabelle
  imports Main "HOL-Library.Word"
begin

section \<open>Machine types of the contract\<close>

text \<open>
  The ledger is the Solidity contract \<^verbatim>\<open>AgentWallet\<close> (pragma \<^verbatim>\<open>^0.8.24\<close>).
  Its integers are fixed-width words; arithmetic outside \<^verbatim>\<open>unchecked\<close> blocks
  reverts with \<^verbatim>\<open>Panic(0x11)\<close> on overflow, and explicit casts such as
  \<^verbatim>\<open>uint64(block.timestamp)\<close> truncate.
\<close>

type_synonym address = "160 word"
type_synonym uint256 = "256 word"
type_synonym uint64 = "64 word"
type_synonym bytes = "8 word list"

definition checked_add :: "uint256 \<Rightarrow> uint256 \<Rightarrow> uint256 option" where
  "checked_add a b = (if unat a + unat b < 2 ^ 256 then Some (a + b) else None)"

definition checked_sub :: "uint256 \<Rightarrow> uint256 \<Rightarrow> uint256 option" where
  "checked_sub a b = (if b \<le> a then Some (a - b) else None)"

text \<open>\<^verbatim>\<open>1 days\<close> in seconds.\<close>

definition one_day :: nat where
  "one_day = 86400"

section \<open>Data model\<close>

record Policy =
  active :: bool
  dailyLimit :: uint256
  perTxLimit :: uint256
  spentToday :: uint256
  lastReset :: uint64

record AgentConfig =
  owner :: address
  agent :: address
  policy :: Policy

text \<open>The field \<^verbatim>\<open>active\<close> of \<^verbatim>\<open>Subscription\<close> is named \<open>subActive\<close> here, since
  \<open>active\<close> is the field of \<open>Policy\<close>.\<close>

record Subscription =
  merchant :: address
  amountPerPeriod :: uint256
  periodSeconds :: uint64
  nextExecutionAt :: uint64
  subActive :: bool

text \<open>The custom errors of the contract (without the prefix \<^verbatim>\<open>AgentWallet__\<close>), a failed
  \<^verbatim>\<open>require\<close> with its message, an arithmetic panic, and a revert that bubbles up from
  the token contract.\<close>

datatype error =
    AgentNotFound
  | NotAgentOwner
  | NotAgent
  | PolicyInactive
  | MerchantNotAllowed
  | PerTxLimitExceeded
  | DailyLimitExceeded
  | InsufficientBalance
  | InvalidAddress
  | InvalidAmount
  | InvalidLimits
  | RequireFailed string
  | Panic
  | ExternalRevert

text \<open>The error kinds the specification names \<^verbatim>\<open>ReentrantCall\<close> and
  \<^verbatim>\<open>ExternalTransferFailed\<close> are failed requires of the source.\<close>

definition ReentrantCall :: error where
  "ReentrantCall = RequireFailed ''ReentrancyGuard: reentrant call''"

datatype event =
    OwnershipTransferred address address
  | AgentCreated uint256 address address
  | AgentUpdated uint256 address
  | AgentPaused uint256 bool
  | PolicyLimitsUpdated uint256 uint256 uint256
  | MerchantWhitelistUpdated uint256 address bool
  | Deposit uint256 uint256 uint256
  | Withdraw uint256 uint256 uint256
  | EmergencyWithdraw uint256 uint256
  | AgentPayment uint256 address uint256 bytes
  | DailySpendReset uint256
  | SubscriptionCreated uint256 uint256 address
  | SubscriptionExecuted uint256 uint256 uint256
  | SubscriptionStatusChanged uint256 uint256 bool

subsection \<open>The token interface\<close>

text \<open>
  \<^verbatim>\<open>IERC20 public immutable usdc\<close> is an external contract known only by its interface.
  It is a parameter of the model: a token state \<open>'t\<close> and the interface functions acting on
  it. The first argument of a state-changing function is its \<^verbatim>\<open>msg.sender\<close>. The result
  \<open>None\<close> is a revert inside the token, which bubbles up through the high-level call;
  \<open>Some (b, t)\<close> is a return of the boolean \<open>b\<close> in token state \<open>t\<close>.
  The token acts on its own state only (it does not call back into the wallet).
\<close>

record 't IERC20 =
  transfer :: "address \<Rightarrow> address \<Rightarrow> uint256 \<Rightarrow> 't \<Rightarrow> (bool \<times> 't) option"
  transferFrom :: "address \<Rightarrow> address \<Rightarrow> address \<Rightarrow> uint256 \<Rightarrow> 't \<Rightarrow> (bool \<times> 't) option"
  approve :: "address \<Rightarrow> address \<Rightarrow> uint256 \<Rightarrow> 't \<Rightarrow> (bool \<times> 't) option"
  allowance :: "address \<Rightarrow> address \<Rightarrow> 't \<Rightarrow> uint256 option"
  tokenBalanceOf :: "address \<Rightarrow> 't \<Rightarrow> uint256 option"

subsection \<open>Storage of the contract and the world around it\<close>

text \<open>
  Solidity mappings are total, with the zero value at every key never written, so they are
  total functions. \<open>contractOwner\<close> is \<^verbatim>\<open>Ownable._owner\<close>, \<open>status\<close> is
  \<^verbatim>\<open>ReentrancyGuard._status\<close>; the other fields carry the names of the source without
  the leading underscore. The token state and the event log belong to the world a
  transaction changes (and a revert restores), so they are fields too.
\<close>

record 't world =
  contractOwner :: address
  status :: uint256
  nextAgentId :: uint256
  agents :: "uint256 \<Rightarrow> AgentConfig"
  merchantWhitelist :: "uint256 \<Rightarrow> address \<Rightarrow> bool"
  balances :: "uint256 \<Rightarrow> uint256"
  subscriptions :: "uint256 \<Rightarrow> uint256 \<Rightarrow> Subscription"
  nextSubscriptionId :: "uint256 \<Rightarrow> uint256"
  token :: 't
  events :: "event list"

text \<open>The context of a transaction: the token the contract was deployed with,
  \<^verbatim>\<open>address(this)\<close> and \<^verbatim>\<open>block.timestamp\<close>.\<close>

record 't ctx =
  usdc :: "'t IERC20"
  wallet_address :: address
  timestamp :: uint256

definition NOT_ENTERED :: uint256 where
  "NOT_ENTERED = 1"

definition ENTERED :: uint256 where
  "ENTERED = 2"

definition zeroPolicy :: Policy where
  "zeroPolicy = \<lparr>active = False, dailyLimit = 0, perTxLimit = 0, spentToday = 0, lastReset = 0\<rparr>"

definition zeroAgent :: AgentConfig where
  "zeroAgent = \<lparr>owner = 0, agent = 0, policy = zeroPolicy\<rparr>"

definition zeroSubscription :: Subscription where
  "zeroSubscription = \<lparr>merchant = 0, amountPerPeriod = 0, periodSeconds = 0,
     nextExecutionAt = 0, subActive = False\<rparr>"

text \<open>The constructors \<^verbatim>\<open>Ownable(msg.sender)\<close>, \<^verbatim>\<open>ReentrancyGuard()\<close> and
  \<^verbatim>\<open>AgentWallet(usdcToken)\<close>.\<close>

definition deploy :: "address \<Rightarrow> 't \<Rightarrow> error + 't world" where
  "deploy sender t =
     (if sender = 0 then Inl (RequireFailed ''Ownable: zero address'')
      else Inr \<lparr>contractOwner = sender, status = NOT_ENTERED, nextAgentId = 0,
                agents = (\<lambda>_. zeroAgent), merchantWhitelist = (\<lambda>_ _. False),
                balances = (\<lambda>_. 0), subscriptions = (\<lambda>_ _. zeroSubscription),
                nextSubscriptionId = (\<lambda>_. 0), token = t,
                events = [OwnershipTransferred 0 sender]\<rparr>)"

section \<open>Modifiers and internal helpers\<close>

text \<open>A function body is a function from the world to an error or a result; a revert is
  \<open>Inl\<close>. A modifier wraps a body, the placeholder \<^verbatim>\<open>_\<close> being the body.\<close>

definition agentExists :: "uint256 \<Rightarrow> ('t world \<Rightarrow> error + 'a) \<Rightarrow> 't world \<Rightarrow> error + 'a" where
  "agentExists agentId body w =
     (if owner (agents w agentId) = 0 then Inl AgentNotFound else body w)"

definition onlyAgentOwner ::
  "address \<Rightarrow> uint256 \<Rightarrow> ('t world \<Rightarrow> error + 'a) \<Rightarrow> 't world \<Rightarrow> error + 'a" where
  "onlyAgentOwner sender agentId body w =
     (if owner (agents w agentId) \<noteq> sender then Inl NotAgentOwner else body w)"

definition onlyAgent ::
  "address \<Rightarrow> uint256 \<Rightarrow> ('t world \<Rightarrow> error + 'a) \<Rightarrow> 't world \<Rightarrow> error + 'a" where
  "onlyAgent sender agentId body w =
     (if agent (agents w agentId) \<noteq> sender then Inl NotAgent else body w)"

definition nonReentrant :: "('t world \<Rightarrow> error + 't world) \<Rightarrow> 't world \<Rightarrow> error + 't world" where
  "nonReentrant body w =
     (if status w = ENTERED then Inl (RequireFailed ''ReentrancyGuard: reentrant call'')
      else case body (w\<lparr>status := ENTERED\<rparr>) of
             Inl e \<Rightarrow> Inl e
           | Inr w' \<Rightarrow> Inr (w'\<lparr>status := NOT_ENTERED\<rparr>))"

definition onlyOwner :: "address \<Rightarrow> ('t world \<Rightarrow> error + 'a) \<Rightarrow> 't world \<Rightarrow> error + 'a" where
  "onlyOwner sender body w =
     (if sender \<noteq> contractOwner w then Inl (RequireFailed ''Ownable: caller not owner'')
      else body w)"

text \<open>A write to \<^verbatim>\<open>_agents[agentId].policy\<close> through the storage pointer.\<close>

definition set_policy :: "uint256 \<Rightarrow> Policy \<Rightarrow> 't world \<Rightarrow> 't world" where
  "set_policy agentId p w =
     w\<lparr>agents := (agents w)(agentId := (agents w agentId)\<lparr>policy := p\<rparr>)\<rparr>"

text \<open>The comparison \<^verbatim>\<open>block.timestamp >= uint256(policy.lastReset) + 1 days\<close>: the sum of
  a 64-bit value and 86400 cannot overflow 256 bits, so it is the sum of the numbers.\<close>

definition reset_due :: "uint256 \<Rightarrow> Policy \<Rightarrow> bool" where
  "reset_due now p = (unat (lastReset p) + one_day \<le> unat now)"

definition resetIfNeeded :: "uint256 \<Rightarrow> uint256 \<Rightarrow> 't world \<Rightarrow> 't world" where
  "resetIfNeeded now agentId w =
     (let p = policy (agents w agentId) in
      if reset_due now p
      then (set_policy agentId (p\<lparr>spentToday := 0, lastReset := ucast now\<rparr>) w)
             \<lparr>events := events w @ [DailySpendReset agentId]\<rparr>
      else w)"

definition validateLimits :: "uint256 \<Rightarrow> uint256 \<Rightarrow> error option" where
  "validateLimits dl ptl =
     (if dl = 0 \<or> ptl = 0 then Some InvalidLimits
      else if dl < ptl then Some InvalidLimits
      else None)"

section \<open>Agent lifecycle\<close>

text \<open>\<open>sender\<close> is \<^verbatim>\<open>msg.sender\<close>. \<^verbatim>\<open>agentId = ++nextAgentId\<close> is a checked increment.\<close>

definition createAgent ::
  "'t ctx \<Rightarrow> address \<Rightarrow> address \<Rightarrow> uint256 \<Rightarrow> uint256 \<Rightarrow> 't world \<Rightarrow> error + ('t world \<times> uint256)" where
  "createAgent cx sender agentAddress dl ptl w =
     (if agentAddress = 0 then Inl InvalidAddress
      else case validateLimits dl ptl of
        Some e \<Rightarrow> Inl e
      | None \<Rightarrow>
         (case checked_add (nextAgentId w) 1 of
            None \<Rightarrow> Inl Panic
          | Some agentId \<Rightarrow>
              Inr (w\<lparr>nextAgentId := agentId,
                      agents := (agents w)(agentId :=
                        \<lparr>owner = sender, agent = agentAddress,
                         policy = \<lparr>active = True, dailyLimit = dl, perTxLimit = ptl,
                                   spentToday = 0, lastReset = ucast (timestamp cx)\<rparr>\<rparr>),
                      events := events w @ [AgentCreated agentId sender agentAddress]\<rparr>,
                   agentId)))"

definition setAgentAddress ::
  "address \<Rightarrow> uint256 \<Rightarrow> address \<Rightarrow> 't world \<Rightarrow> error + 't world" where
  "setAgentAddress sender agentId newAgent =
     agentExists agentId (onlyAgentOwner sender agentId (\<lambda>w.
       if newAgent = 0 then Inl InvalidAddress
       else Inr (w\<lparr>agents := (agents w)(agentId := (agents w agentId)\<lparr>agent := newAgent\<rparr>),
                   events := events w @ [AgentUpdated agentId newAgent]\<rparr>)))"

section \<open>Funding management\<close>

definition deposit ::
  "'t ctx \<Rightarrow> address \<Rightarrow> uint256 \<Rightarrow> uint256 \<Rightarrow> 't world \<Rightarrow> error + 't world" where
  "deposit cx sender agentId amount =
     agentExists agentId (onlyAgentOwner sender agentId (nonReentrant (\<lambda>w.
       if amount = 0 then Inl InvalidAmount
       else case transferFrom (usdc cx) (wallet_address cx) sender (wallet_address cx) amount
                   (token w) of
         None \<Rightarrow> Inl ExternalRevert
       | Some (success, t') \<Rightarrow>
           if \<not> success then Inl (RequireFailed ''USDC: transferFrom failed'')
           else (case checked_add (balances w agentId) amount of
                   None \<Rightarrow> Inl Panic
                 | Some b \<Rightarrow>
                     Inr (w\<lparr>token := t', balances := (balances w)(agentId := b),
                            events := events w @ [Deposit agentId amount b]\<rparr>)))))"

definition withdraw ::
  "'t ctx \<Rightarrow> address \<Rightarrow> uint256 \<Rightarrow> uint256 \<Rightarrow> 't world \<Rightarrow> error + 't world" where
  "withdraw cx sender agentId amount =
     agentExists agentId (onlyAgentOwner sender agentId (nonReentrant (\<lambda>w.
       if amount = 0 then Inl InvalidAmount
       else if balances w agentId < amount then Inl InsufficientBalance
       else case checked_sub (balances w agentId) amount of
         None \<Rightarrow> Inl Panic
       | Some b \<Rightarrow>
          (case transfer (usdc cx) (wallet_address cx) sender amount (token w) of
             None \<Rightarrow> Inl ExternalRevert
           | Some (success, t') \<Rightarrow>
               if \<not> success then Inl (RequireFailed ''USDC: transfer failed'')
               else Inr (w\<lparr>token := t', balances := (balances w)(agentId := b),
                           events := events w @ [Withdraw agentId amount b]\<rparr>)))))"

definition emergencyWithdraw ::
  "'t ctx \<Rightarrow> address \<Rightarrow> uint256 \<Rightarrow> 't world \<Rightarrow> error + 't world" where
  "emergencyWithdraw cx sender agentId =
     agentExists agentId (onlyAgentOwner sender agentId (nonReentrant (\<lambda>w.
       let balance = balances w agentId in
       case transfer (usdc cx) (wallet_address cx) sender balance (token w) of
         None \<Rightarrow> Inl ExternalRevert
       | Some (success, t') \<Rightarrow>
           if \<not> success then Inl (RequireFailed ''USDC: transfer failed'')
           else Inr (w\<lparr>token := t', balances := (balances w)(agentId := 0),
                       events := events w @ [EmergencyWithdraw agentId balance]\<rparr>))))"

section \<open>Policy management\<close>

definition setPolicyActive ::
  "address \<Rightarrow> uint256 \<Rightarrow> bool \<Rightarrow> 't world \<Rightarrow> error + 't world" where
  "setPolicyActive sender agentId act =
     agentExists agentId (onlyAgentOwner sender agentId (\<lambda>w.
       Inr ((set_policy agentId ((policy (agents w agentId))\<lparr>active := act\<rparr>) w)
              \<lparr>events := events w @ [AgentPaused agentId act]\<rparr>)))"

definition updateLimits ::
  "'t ctx \<Rightarrow> address \<Rightarrow> uint256 \<Rightarrow> uint256 \<Rightarrow> uint256 \<Rightarrow> 't world \<Rightarrow> error + 't world" where
  "updateLimits cx sender agentId newDailyLimit newPerTxLimit =
     agentExists agentId (onlyAgentOwner sender agentId (\<lambda>w0.
       case validateLimits newDailyLimit newPerTxLimit of
         Some e \<Rightarrow> Inl e
       | None \<Rightarrow>
          (let w = resetIfNeeded (timestamp cx) agentId w0;
               p = (policy (agents w agentId))
                     \<lparr>dailyLimit := newDailyLimit, perTxLimit := newPerTxLimit\<rparr>;
               p' = (if newDailyLimit < spentToday p then p\<lparr>spentToday := newDailyLimit\<rparr>
                     else p)
           in Inr ((set_policy agentId p' w)
                     \<lparr>events := events w @
                        [PolicyLimitsUpdated agentId newDailyLimit newPerTxLimit]\<rparr>))))"

definition setMerchantWhitelist ::
  "address \<Rightarrow> uint256 \<Rightarrow> address \<Rightarrow> bool \<Rightarrow> 't world \<Rightarrow> error + 't world" where
  "setMerchantWhitelist sender agentId mrch allowed =
     agentExists agentId (onlyAgentOwner sender agentId (\<lambda>w.
       if mrch = 0 then Inl InvalidAddress
       else Inr (w\<lparr>merchantWhitelist :=
                     (merchantWhitelist w)(agentId := (merchantWhitelist w agentId)(mrch := allowed)),
                   events := events w @ [MerchantWhitelistUpdated agentId mrch allowed]\<rparr>)))"

section \<open>Spending\<close>

text \<open>
  \<open>ext\<close> is the code outside the contract: \<open>ext m d w\<close> is what the low-level call
  \<^verbatim>\<open>merchant.call(data)\<close> to address \<open>m\<close> with payload \<open>d\<close> does when it starts in world
  \<open>w\<close>: the boolean \<^verbatim>\<open>ok\<close> and the world it leaves.
\<close>

type_synonym 't external = "address \<Rightarrow> bytes \<Rightarrow> 't world \<Rightarrow> bool \<times> 't world"

text \<open>The settlement of \<^verbatim>\<open>_processPayment\<close> (its \<^verbatim>\<open>if (data.length == 0) ... else ...\<close>).\<close>

definition settle ::
  "'t ctx \<Rightarrow> 't external \<Rightarrow> address \<Rightarrow> uint256 \<Rightarrow> bytes \<Rightarrow> 't world \<Rightarrow> error + 't world" where
  "settle cx ext mrch amount data w =
     (if length data = 0 then
        (case transfer (usdc cx) (wallet_address cx) mrch amount (token w) of
           None \<Rightarrow> Inl ExternalRevert
         | Some (success, t') \<Rightarrow>
             if \<not> success then Inl (RequireFailed ''USDC: transfer failed'')
             else Inr (w\<lparr>token := t'\<rparr>))
      else
        (case allowance (usdc cx) (wallet_address cx) mrch (token w) of
           None \<Rightarrow> Inl ExternalRevert
         | Some a \<Rightarrow>
            (case (if a \<noteq> 0
                   then (case approve (usdc cx) (wallet_address cx) mrch 0 (token w) of
                           None \<Rightarrow> Inl ExternalRevert
                         | Some (r, t0) \<Rightarrow>
                             if \<not> r then Inl (RequireFailed ''USDC: reset approve failed'')
                             else Inr t0)
                   else Inr (token w)) of
               Inl e \<Rightarrow> Inl e
             | Inr t1 \<Rightarrow>
                (case approve (usdc cx) (wallet_address cx) mrch amount t1 of
                   None \<Rightarrow> Inl ExternalRevert
                 | Some (r, t2) \<Rightarrow>
                     if \<not> r then Inl (RequireFailed ''USDC: approve failed'')
                     else (case ext mrch data (w\<lparr>token := t2\<rparr>) of
                             (ok, w') \<Rightarrow>
                               if \<not> ok then Inl (RequireFailed ''Merchant call failed'')
                               else Inr w')))))"

definition processPayment ::
  "'t ctx \<Rightarrow> 't external \<Rightarrow> uint256 \<Rightarrow> address \<Rightarrow> uint256 \<Rightarrow> bytes \<Rightarrow> 't world \<Rightarrow> error + 't world" where
  "processPayment cx ext agentId mrch amount data w0 =
     (let w = resetIfNeeded (timestamp cx) agentId w0;
          p = policy (agents w agentId)
      in if \<not> active p then Inl PolicyInactive
         else if \<not> merchantWhitelist w agentId mrch then Inl MerchantNotAllowed
         else if perTxLimit p < amount then Inl PerTxLimitExceeded
         else case checked_add (spentToday p) amount of
           None \<Rightarrow> Inl Panic
         | Some newSpent \<Rightarrow>
             if dailyLimit p < newSpent then Inl DailyLimitExceeded
             else if balances w agentId < amount then Inl InsufficientBalance
             else (case checked_sub (balances w agentId) amount of
                None \<Rightarrow> Inl Panic
              | Some b \<Rightarrow>
                 (case checked_add (spentToday p) amount of
                    None \<Rightarrow> Inl Panic
                  | Some sp \<Rightarrow>
                     (case settle cx ext mrch amount data
                             (set_policy agentId (p\<lparr>spentToday := sp\<rparr>)
                                (w\<lparr>balances := (balances w)(agentId := b)\<rparr>)) of
                        Inl e \<Rightarrow> Inl e
                      | Inr w' \<Rightarrow>
                          Inr (w'\<lparr>events := events w' @
                                  [AgentPayment agentId mrch amount data]\<rparr>)))))"

definition pay ::
  "'t ctx \<Rightarrow> 't external \<Rightarrow> address \<Rightarrow> uint256 \<Rightarrow> address \<Rightarrow> uint256 \<Rightarrow> bytes \<Rightarrow>
     't world \<Rightarrow> error + 't world" where
  "pay cx ext sender agentId mrch amount data =
     agentExists agentId (onlyAgent sender agentId (nonReentrant (\<lambda>w.
       if mrch = 0 then Inl InvalidAddress
       else if amount = 0 then Inl InvalidAmount
       else processPayment cx ext agentId mrch amount data w)))"

section \<open>Subscriptions\<close>

definition createSubscription ::
  "'t ctx \<Rightarrow> address \<Rightarrow> uint256 \<Rightarrow> address \<Rightarrow> uint256 \<Rightarrow> uint64 \<Rightarrow> uint64 \<Rightarrow>
     't world \<Rightarrow> error + ('t world \<times> uint256)" where
  "createSubscription cx sender agentId mrch amountPP period firstExecutionAt =
     agentExists agentId (onlyAgentOwner sender agentId (\<lambda>w.
       if mrch = 0 then Inl InvalidAddress
       else if \<not> merchantWhitelist w agentId mrch then Inl MerchantNotAllowed
       else if amountPP = 0 then Inl InvalidAmount
       else if period < 60 then Inl InvalidAmount
       else case checked_add (nextSubscriptionId w agentId) 1 of
         None \<Rightarrow> Inl Panic
       | Some subscriptionId \<Rightarrow>
           Inr (w\<lparr>nextSubscriptionId := (nextSubscriptionId w)(agentId := subscriptionId),
                   subscriptions := (subscriptions w)(agentId :=
                     (subscriptions w agentId)(subscriptionId :=
                        (subscriptions w agentId subscriptionId)
                          \<lparr>merchant := mrch, amountPerPeriod := amountPP,
                           periodSeconds := period,
                           nextExecutionAt :=
                             (if firstExecutionAt = 0 then ucast (timestamp cx)
                              else firstExecutionAt),
                           subActive := True\<rparr>)),
                   events := events w @ [SubscriptionCreated agentId subscriptionId mrch]\<rparr>,
                subscriptionId)))"

definition setSubscriptionStatus ::
  "address \<Rightarrow> uint256 \<Rightarrow> uint256 \<Rightarrow> bool \<Rightarrow> 't world \<Rightarrow> error + 't world" where
  "setSubscriptionStatus sender agentId subscriptionId act =
     agentExists agentId (onlyAgentOwner sender agentId (\<lambda>w.
       let sub = subscriptions w agentId subscriptionId in
       if merchant sub = 0 then Inl (RequireFailed ''Subscription not found'')
       else Inr (w\<lparr>subscriptions := (subscriptions w)(agentId :=
                     (subscriptions w agentId)(subscriptionId := sub\<lparr>subActive := act\<rparr>)),
                   events := events w @
                     [SubscriptionStatusChanged agentId subscriptionId act]\<rparr>)))"

text \<open>\<^verbatim>\<open>sub\<close> is a storage pointer: the event after the payment reads
  \<^verbatim>\<open>sub.amountPerPeriod\<close> from the storage the payment left.\<close>

definition executeSubscription ::
  "'t ctx \<Rightarrow> 't external \<Rightarrow> uint256 \<Rightarrow> uint256 \<Rightarrow> bytes \<Rightarrow> 't world \<Rightarrow> error + 't world" where
  "executeSubscription cx ext agentId subscriptionId data =
     agentExists agentId (nonReentrant (\<lambda>w.
       let sub = subscriptions w agentId subscriptionId in
       if \<not> subActive sub then Inl (RequireFailed ''Subscription inactive'')
       else if merchant sub = 0 then Inl (RequireFailed ''Subscription not found'')
       else if timestamp cx < ucast (nextExecutionAt sub) then Inl (RequireFailed ''Too early'')
       else case checked_add (timestamp cx) (ucast (periodSeconds sub)) of
         None \<Rightarrow> Inl Panic
       | Some t \<Rightarrow>
          (let sub' = sub\<lparr>nextExecutionAt := ucast t\<rparr>;
               w1 = w\<lparr>subscriptions := (subscriptions w)(agentId :=
                        (subscriptions w agentId)(subscriptionId := sub'))\<rparr>
           in case processPayment cx ext agentId (merchant sub') (amountPerPeriod sub') data w1 of
                Inl e \<Rightarrow> Inl e
              | Inr w2 \<Rightarrow>
                  Inr (w2\<lparr>events := events w2 @
                         [SubscriptionExecuted agentId subscriptionId
                            (amountPerPeriod (subscriptions w2 agentId subscriptionId))]\<rparr>))))"

section \<open>Ownable\<close>

definition transferOwnership :: "address \<Rightarrow> address \<Rightarrow> 't world \<Rightarrow> error + 't world" where
  "transferOwnership sender newOwner =
     onlyOwner sender (\<lambda>w.
       if newOwner = 0 then Inl (RequireFailed ''Ownable: zero address'')
       else Inr (w\<lparr>contractOwner := newOwner,
                   events := events w @ [OwnershipTransferred (contractOwner w) newOwner]\<rparr>))"

section \<open>View helpers\<close>

definition agent_view :: "uint256 \<Rightarrow> 't world \<Rightarrow> error + AgentConfig" where
  "agent_view agentId = agentExists agentId (\<lambda>w. Inr (agents w agentId))"

definition balanceOf :: "uint256 \<Rightarrow> 't world \<Rightarrow> error + uint256" where
  "balanceOf agentId = agentExists agentId (\<lambda>w. Inr (balances w agentId))"

definition isMerchantWhitelisted :: "uint256 \<Rightarrow> address \<Rightarrow> 't world \<Rightarrow> error + bool" where
  "isMerchantWhitelisted agentId mrch =
     agentExists agentId (\<lambda>w. Inr (merchantWhitelist w agentId mrch))"

definition spentToday_view :: "'t ctx \<Rightarrow> uint256 \<Rightarrow> 't world \<Rightarrow> error + uint256" where
  "spentToday_view cx agentId =
     agentExists agentId (\<lambda>w.
       let p = policy (agents w agentId) in
       if reset_due (timestamp cx) p then Inr 0 else Inr (spentToday p))"

definition subscription_view :: "uint256 \<Rightarrow> uint256 \<Rightarrow> 't world \<Rightarrow> error + Subscription" where
  "subscription_view agentId subscriptionId =
     agentExists agentId (\<lambda>w. Inr (subscriptions w agentId subscriptionId))"

definition nextSubscriptionId_view :: "uint256 \<Rightarrow> 't world \<Rightarrow> error + uint256" where
  "nextSubscriptionId_view agentId = agentExists agentId (\<lambda>w. Inr (nextSubscriptionId w agentId))"

section \<open>Calls, reverts and the code outside the contract\<close>

text \<open>The external functions of the contract that change state, with their arguments.\<close>

datatype call =
    Call_createAgent address uint256 uint256
  | Call_setAgentAddress uint256 address
  | Call_deposit uint256 uint256
  | Call_withdraw uint256 uint256
  | Call_emergencyWithdraw uint256
  | Call_setPolicyActive uint256 bool
  | Call_updateLimits uint256 uint256 uint256
  | Call_setMerchantWhitelist uint256 address bool
  | Call_pay uint256 address uint256 bytes
  | Call_createSubscription uint256 address uint256 uint64 uint64
  | Call_setSubscriptionStatus uint256 uint256 bool
  | Call_executeSubscription uint256 uint256 bytes
  | Call_transferOwnership address

definition no_value :: "error + 't world \<Rightarrow> error + ('t world \<times> uint256 option)" where
  "no_value r = (case r of Inl e \<Rightarrow> Inl e | Inr w \<Rightarrow> Inr (w, None))"

definition with_value :: "error + ('t world \<times> uint256) \<Rightarrow> error + ('t world \<times> uint256 option)" where
  "with_value r = (case r of Inl e \<Rightarrow> Inl e | Inr (w, v) \<Rightarrow> Inr (w, Some v))"

fun dispatch ::
  "'t ctx \<Rightarrow> 't external \<Rightarrow> address \<Rightarrow> call \<Rightarrow> 't world \<Rightarrow> error + ('t world \<times> uint256 option)" where
  "dispatch cx ext sender (Call_createAgent a dl ptl) w =
     with_value (createAgent cx sender a dl ptl w)"
| "dispatch cx ext sender (Call_setAgentAddress i a) w = no_value (setAgentAddress sender i a w)"
| "dispatch cx ext sender (Call_deposit i amount) w = no_value (deposit cx sender i amount w)"
| "dispatch cx ext sender (Call_withdraw i amount) w = no_value (withdraw cx sender i amount w)"
| "dispatch cx ext sender (Call_emergencyWithdraw i) w = no_value (emergencyWithdraw cx sender i w)"
| "dispatch cx ext sender (Call_setPolicyActive i b) w = no_value (setPolicyActive sender i b w)"
| "dispatch cx ext sender (Call_updateLimits i dl ptl) w =
     no_value (updateLimits cx sender i dl ptl w)"
| "dispatch cx ext sender (Call_setMerchantWhitelist i m b) w =
     no_value (setMerchantWhitelist sender i m b w)"
| "dispatch cx ext sender (Call_pay i m amount data) w =
     no_value (pay cx ext sender i m amount data w)"
| "dispatch cx ext sender (Call_createSubscription i m amount period first) w =
     with_value (createSubscription cx sender i m amount period first w)"
| "dispatch cx ext sender (Call_setSubscriptionStatus i j b) w =
     no_value (setSubscriptionStatus sender i j b w)"
| "dispatch cx ext sender (Call_executeSubscription i j data) w =
     no_value (executeSubscription cx ext i j data w)"
| "dispatch cx ext sender (Call_transferOwnership a) w = no_value (transferOwnership sender a w)"

text \<open>
  A call to the contract is a call frame of the execution environment: when the body
  reverts, every change the frame made (storage, token, events) is undone and the caller
  gets the error; otherwise the changes stay and the caller gets the returned value.
\<close>

definition exec ::
  "'t ctx \<Rightarrow> 't external \<Rightarrow> address \<Rightarrow> call \<Rightarrow> 't world \<Rightarrow> 't world \<times> (error + uint256 option)" where
  "exec cx ext sender c w =
     (case dispatch cx ext sender c w of
        Inl e \<Rightarrow> (w, Inl e)
      | Inr (w', v) \<Rightarrow> (w', Inr v))"

text \<open>Calls to the token by code outside the wallet; a revert leaves the token unchanged.\<close>

datatype tokcall =
    Tok_transfer address uint256
  | Tok_transferFrom address address uint256
  | Tok_approve address uint256

fun token_exec :: "'t IERC20 \<Rightarrow> address \<Rightarrow> tokcall \<Rightarrow> 't \<Rightarrow> 't \<times> bool option" where
  "token_exec tk sender (Tok_transfer to amount) t =
     (case transfer tk sender to amount t of None \<Rightarrow> (t, None) | Some (b, t') \<Rightarrow> (t', Some b))"
| "token_exec tk sender (Tok_transferFrom from to amount) t =
     (case transferFrom tk sender from to amount t of
        None \<Rightarrow> (t, None) | Some (b, t') \<Rightarrow> (t', Some b))"
| "token_exec tk sender (Tok_approve spender amount) t =
     (case approve tk sender spender amount t of None \<Rightarrow> (t, None) | Some (b, t') \<Rightarrow> (t', Some b))"

text \<open>
  The code a low-level call runs is arbitrary. It is a tree of what it does to the wallet
  and the token: it returns its success flag; it looks at the world and goes on according
  to what it sees; it calls a function of the wallet as some sender (the code that call
  may reach in turn is given with it) and goes on according to the result; it calls the
  token; or it runs a sub-call in a frame of its own, whose changes are undone when the
  sub-call fails.
\<close>

datatype 't callee =
    Return bool
  | Observe "'t world \<Rightarrow> 't callee"
  | CallWallet address call "address \<Rightarrow> bytes \<Rightarrow> 't callee" "error + uint256 option \<Rightarrow> 't callee"
  | CallToken address tokcall "bool option \<Rightarrow> 't callee"
  | Frame "'t callee" "bool \<Rightarrow> 't callee"

primrec run :: "'t ctx \<Rightarrow> 't callee \<Rightarrow> 't world \<Rightarrow> bool \<times> 't world" where
  "run cx (Return ok) = (\<lambda>w. (ok, w))"
| "run cx (Observe f) = (\<lambda>w. run cx (f w) w)"
| "run cx (CallWallet sender c code k) =
     (\<lambda>w. case exec cx (\<lambda>m d. run cx (code m d)) sender c w of
             (w', r) \<Rightarrow> run cx (k r) w')"
| "run cx (CallToken sender tc k) =
     (\<lambda>w. case token_exec (usdc cx) sender tc (token w) of
             (t', r) \<Rightarrow> run cx (k r) (w\<lparr>token := t'\<rparr>))"
| "run cx (Frame c k) =
     (\<lambda>w. case run cx c w of
             (ok, w') \<Rightarrow> if ok then run cx (k True) w' else run cx (k False) w)"

text \<open>A transaction: a call from outside, with the code each address runs when called.\<close>

definition transact ::
  "'t ctx \<Rightarrow> (address \<Rightarrow> bytes \<Rightarrow> 't callee) \<Rightarrow> address \<Rightarrow> call \<Rightarrow> 't world \<Rightarrow>
     't world \<times> (error + uint256 option)" where
  "transact cx code sender c w = exec cx (\<lambda>m d. run cx (code m d)) sender c w"

section \<open>The token of the test suite\<close>

text \<open>\<^verbatim>\<open>TestUSDC\<close> of \<^verbatim>\<open>test/AgentWallet.t.sol\<close>; its mappings \<^verbatim>\<open>_balances\<close> and
  \<^verbatim>\<open>_allowances\<close> are the fields \<open>tokBalances\<close> and \<open>tokAllowances\<close>.\<close>

record TestUSDC =
  tokBalances :: "address \<Rightarrow> uint256"
  tokAllowances :: "address \<Rightarrow> address \<Rightarrow> uint256"

definition usdc_mint :: "address \<Rightarrow> uint256 \<Rightarrow> TestUSDC \<Rightarrow> TestUSDC option" where
  "usdc_mint to amount t =
     (case checked_add (tokBalances t to) amount of
        None \<Rightarrow> None
      | Some b \<Rightarrow> Some (t\<lparr>tokBalances := (tokBalances t)(to := b)\<rparr>))"

text \<open>\<^verbatim>\<open>_transfer\<close>: the second write reads the mapping the first write left.\<close>

definition usdc_move :: "address \<Rightarrow> address \<Rightarrow> uint256 \<Rightarrow> TestUSDC \<Rightarrow> TestUSDC option" where
  "usdc_move from to amount t =
     (if tokBalances t from < amount then None
      else case checked_sub (tokBalances t from) amount of
        None \<Rightarrow> None
      | Some b \<Rightarrow>
         (let bs = (tokBalances t)(from := b) in
          case checked_add (bs to) amount of
            None \<Rightarrow> None
          | Some b' \<Rightarrow> Some (t\<lparr>tokBalances := bs(to := b')\<rparr>)))"

definition usdc_transfer :: "address \<Rightarrow> address \<Rightarrow> uint256 \<Rightarrow> TestUSDC \<Rightarrow> (bool \<times> TestUSDC) option" where
  "usdc_transfer sender to amount t =
     (case usdc_move sender to amount t of None \<Rightarrow> None | Some t' \<Rightarrow> Some (True, t'))"

definition usdc_transferFrom ::
  "address \<Rightarrow> address \<Rightarrow> address \<Rightarrow> uint256 \<Rightarrow> TestUSDC \<Rightarrow> (bool \<times> TestUSDC) option" where
  "usdc_transferFrom sender from to amount t =
     (let currentAllowance = tokAllowances t from sender in
      if currentAllowance < amount then None
      else case checked_sub currentAllowance amount of
        None \<Rightarrow> None
      | Some a \<Rightarrow>
         (case usdc_move from to amount
                 (t\<lparr>tokAllowances := (tokAllowances t)(from := (tokAllowances t from)(sender := a))\<rparr>) of
            None \<Rightarrow> None
          | Some t' \<Rightarrow> Some (True, t')))"

definition usdc_approve :: "address \<Rightarrow> address \<Rightarrow> uint256 \<Rightarrow> TestUSDC \<Rightarrow> (bool \<times> TestUSDC) option" where
  "usdc_approve sender spender amount t =
     Some (True, t\<lparr>tokAllowances :=
                     (tokAllowances t)(sender := (tokAllowances t sender)(spender := amount))\<rparr>)"

definition testUSDC :: "TestUSDC IERC20" where
  "testUSDC =
     \<lparr>transfer = usdc_transfer, transferFrom = usdc_transferFrom, approve = usdc_approve,
      allowance = (\<lambda>holder spender t. Some (tokAllowances t holder spender)),
      tokenBalanceOf = (\<lambda>account t. Some (tokBalances t account))\<rparr>"

section \<open>A concrete deployment\<close>

text \<open>An owner, a delegate and a merchant, the wallet at address 99 over the token of the
  test suite, and a world in which agent 1 is funded and the merchant is whitelisted.\<close>

definition alice :: address where
  "alice = 10"

definition delegate0 :: address where
  "delegate0 = 20"

definition shop :: address where
  "shop = 30"

definition cx0 :: "TestUSDC ctx" where
  "cx0 = \<lparr>usdc = testUSDC, wallet_address = 99, timestamp = 100000\<rparr>"

definition policy0 :: Policy where
  "policy0 = \<lparr>active = True, dailyLimit = 1000000, perTxLimit = 250000, spentToday = 5,
     lastReset = 0\<rparr>"

definition world0 :: "TestUSDC world" where
  "world0 = \<lparr>contractOwner = 1, status = NOT_ENTERED, nextAgentId = 1,
     agents = (\<lambda>_. zeroAgent)(1 := \<lparr>owner = alice, agent = delegate0, policy = policy0\<rparr>),
     merchantWhitelist = (\<lambda>_ _. False)(1 := (\<lambda>_. False)(shop := True)),
     balances = (\<lambda>_. 0)(1 := 1000000),
     subscriptions = (\<lambda>_ _. zeroSubscription),
     nextSubscriptionId = (\<lambda>_. 0),
     token = \<lparr>tokBalances = (\<lambda>_. 0)(99 := 1000000), tokAllowances = (\<lambda>_ _. 0)\<rparr>,
     events = []\<rparr>"

text \<open>A merchant whose code fails, and one whose code does nothing.\<close>

definition ext_fail :: "TestUSDC external" where
  "ext_fail m d w = (False, w)"

definition ext_ok :: "TestUSDC external" where
  "ext_ok m d w = (True, w)"

section \<open>Transactions\<close>

text \<open>A predicate on the calls to the wallet that some code makes, in every branch.\<close>

primrec calls_ok :: "(address \<Rightarrow> call \<Rightarrow> bool) \<Rightarrow> 't callee \<Rightarrow> bool" where
  "calls_ok ok (Return b) = True"
| "calls_ok ok (Observe f) = (\<forall>w. calls_ok ok (f w))"
| "calls_ok ok (CallWallet sender c code k) =
     (ok sender c \<and> (\<forall>m d. calls_ok ok (code m d)) \<and> (\<forall>r. calls_ok ok (k r)))"
| "calls_ok ok (CallToken sender tc k) = (\<forall>r. calls_ok ok (k r))"
| "calls_ok ok (Frame c k) = (calls_ok ok c \<and> (\<forall>b. calls_ok ok (k b)))"

text \<open>A transaction has its block time, its sender, its call and the code of the addresses
  it may reach. A history is a list of transactions, run one after the other.\<close>

record 't tx =
  tx_time :: uint256
  tx_sender :: address
  tx_call :: call
  tx_code :: "address \<Rightarrow> bytes \<Rightarrow> 't callee"

fun run_txs :: "'t IERC20 \<Rightarrow> address \<Rightarrow> 't tx list \<Rightarrow> 't world \<Rightarrow> 't world" where
  "run_txs tk self [] w = w"
| "run_txs tk self (x # xs) w =
     run_txs tk self xs
       (fst (transact \<lparr>usdc = tk, wallet_address = self, timestamp = tx_time x\<rparr>
               (tx_code x) (tx_sender x) (tx_call x) w))"

text \<open>The caller of \<^verbatim>\<open>createAgent\<close> is not the null address.\<close>

fun creator_ok :: "address \<Rightarrow> call \<Rightarrow> bool" where
  "creator_ok sender (Call_createAgent a dl ptl) = (sender \<noteq> 0)"
| "creator_ok sender c = True"

definition tx_ok :: "'t tx \<Rightarrow> bool" where
  "tx_ok x = (creator_ok (tx_sender x) (tx_call x) \<and> (\<forall>m d. calls_ok creator_ok (tx_code x m d)))"

text \<open>The entry points under \<^verbatim>\<open>nonReentrant\<close>.\<close>

fun guarded :: "call \<Rightarrow> bool" where
  "guarded (Call_deposit i amount) = True"
| "guarded (Call_withdraw i amount) = True"
| "guarded (Call_emergencyWithdraw i) = True"
| "guarded (Call_pay i m amount data) = True"
| "guarded (Call_executeSubscription i j data) = True"
| "guarded c = False"

section \<open>Invariants\<close>

definition policy_ok :: "Policy \<Rightarrow> bool" where
  "policy_ok p = (spentToday p \<le> dailyLimit p \<and> perTxLimit p \<le> dailyLimit p
     \<and> 0 < dailyLimit p \<and> 0 < perTxLimit p)"

text \<open>An agent is an identifier whose record has an owner (\<^verbatim>\<open>agentExists\<close>).\<close>

definition policies_ok :: "'t world \<Rightarrow> bool" where
  "policies_ok w = (\<forall>i. owner (agents w i) \<noteq> 0 \<longrightarrow> policy_ok (policy (agents w i)))"

definition ids_ok :: "'t world \<Rightarrow> bool" where
  "ids_ok w = (\<forall>i. (owner (agents w i) \<noteq> 0) = (0 < i \<and> i \<le> nextAgentId w))"

subsection \<open>A history at the concrete deployment\<close>

definition token0 :: TestUSDC where
  "token0 = \<lparr>tokBalances = (\<lambda>_. 0), tokAllowances = (\<lambda>_ _. 0)\<rparr>"

definition genesis0 :: "TestUSDC world" where
  "genesis0 = \<lparr>contractOwner = 1, status = NOT_ENTERED, nextAgentId = 0,
     agents = (\<lambda>_. zeroAgent), merchantWhitelist = (\<lambda>_ _. False),
     balances = (\<lambda>_. 0), subscriptions = (\<lambda>_ _. zeroSubscription),
     nextSubscriptionId = (\<lambda>_. 0), token = token0,
     events = [OwnershipTransferred 0 1]\<rparr>"

definition tx_create :: "TestUSDC tx" where
  "tx_create = \<lparr>tx_time = 100000, tx_sender = alice,
     tx_call = Call_createAgent delegate0 1000000 250000, tx_code = (\<lambda>m d. Return True)\<rparr>"

definition tx_limits :: "TestUSDC tx" where
  "tx_limits = \<lparr>tx_time = 100500, tx_sender = alice,
     tx_call = Call_updateLimits 1 500000 100000, tx_code = (\<lambda>m d. Return True)\<rparr>"

subsection \<open>A history with limits at the top of the 256-bit range\<close>

text \<open>The owner holds \<open>2\<^sup>2\<^sup>5\<^sup>6 - 1\<close> tokens and has approved the wallet for them. She
  creates agent 1 with both limits \<open>2\<^sup>2\<^sup>5\<^sup>6 - 1\<close>, whitelists the merchant and deposits
  everything; the delegate then pays \<open>2\<^sup>2\<^sup>5\<^sup>5\<close>. \<open>policy_big\<close> is the policy of agent 1
  after this history.\<close>

definition half_range :: uint256 where
  "half_range = 57896044618658097711785492504343953926634992332820282019728792003956564819968"

definition token_rich :: TestUSDC where
  "token_rich = \<lparr>tokBalances = (\<lambda>_. 0)(alice := - 1),
     tokAllowances = (\<lambda>_ _. 0)(alice := (\<lambda>_. 0)(99 := - 1))\<rparr>"

definition txs_big :: "TestUSDC tx list" where
  "txs_big =
     [\<lparr>tx_time = 100000, tx_sender = alice, tx_call = Call_createAgent delegate0 (- 1) (- 1),
        tx_code = (\<lambda>m d. Return True)\<rparr>,
      \<lparr>tx_time = 100000, tx_sender = alice, tx_call = Call_setMerchantWhitelist 1 shop True,
        tx_code = (\<lambda>m d. Return True)\<rparr>,
      \<lparr>tx_time = 100000, tx_sender = alice, tx_call = Call_deposit 1 (- 1),
        tx_code = (\<lambda>m d. Return True)\<rparr>,
      \<lparr>tx_time = 100000, tx_sender = delegate0, tx_call = Call_pay 1 shop half_range [],
        tx_code = (\<lambda>m d. Return True)\<rparr>]"

definition world_big :: "TestUSDC world" where
  "world_big = run_txs testUSDC 99 txs_big (genesis0\<lparr>token := token_rich\<rparr>)"

definition policy_big :: Policy where
  "policy_big = \<lparr>active = True, dailyLimit = - 1, perTxLimit = - 1, spentToday = half_range,
     lastReset = 100000\<rparr>"

subsection \<open>A stale authorization and a merchant that looks at the world\<close>

text \<open>The concrete world with an authorization of 7 left over for the merchant, and code of
  the merchant that succeeds only when it is called with the payload \<open>[1]\<close> and sees
  the debit of 200000, the spend of 200000 and an authorization of exactly 200000.\<close>

definition world_stale :: "TestUSDC world" where
  "world_stale = world0\<lparr>token :=
     \<lparr>tokBalances = (\<lambda>_. 0)(99 := 1000000),
      tokAllowances = (\<lambda>_ _. 0)(99 := (\<lambda>_. 0)(shop := 7))\<rparr>\<rparr>"

definition ext_probe :: "TestUSDC external" where
  "ext_probe m d w =
     (m = shop \<and> d = [1] \<and> balances w 1 = 800000
        \<and> spentToday (policy (agents w 1)) = 200000
        \<and> tokAllowances (token w) 99 shop = 200000, w)"

subsection \<open>The modifiers before the latch, and a merchant that calls back\<close>

text \<open>The error of the modifiers that stand before \<^verbatim>\<open>nonReentrant\<close> in the header of a
  guarded function, if one of them fails.\<close>

fun access_error :: "address \<Rightarrow> call \<Rightarrow> 't world \<Rightarrow> error option" where
  "access_error sender (Call_deposit i amount) w =
     (if owner (agents w i) = 0 then Some AgentNotFound
      else if owner (agents w i) \<noteq> sender then Some NotAgentOwner else None)"
| "access_error sender (Call_withdraw i amount) w =
     (if owner (agents w i) = 0 then Some AgentNotFound
      else if owner (agents w i) \<noteq> sender then Some NotAgentOwner else None)"
| "access_error sender (Call_emergencyWithdraw i) w =
     (if owner (agents w i) = 0 then Some AgentNotFound
      else if owner (agents w i) \<noteq> sender then Some NotAgentOwner else None)"
| "access_error sender (Call_pay i m amount data) w =
     (if owner (agents w i) = 0 then Some AgentNotFound
      else if agent (agents w i) \<noteq> sender then Some NotAgent else None)"
| "access_error sender (Call_executeSubscription i j data) w =
     (if owner (agents w i) = 0 then Some AgentNotFound else None)"
| "access_error sender c w = None"

text \<open>Code of the merchant that calls \<^verbatim>\<open>pay\<close> again, as itself, and succeeds only when
  that nested call fails with \<open>NotAgent\<close>; and code that succeeds only outside the latch.\<close>

definition code_reenter :: "address \<Rightarrow> bytes \<Rightarrow> TestUSDC callee" where
  "code_reenter m d =
     CallWallet shop (Call_pay 1 shop 1 []) (\<lambda>m d. Return True) (\<lambda>r. Return (r = Inl NotAgent))"

definition ext_unlatched :: "TestUSDC external" where
  "ext_unlatched m d w = (status w \<noteq> ENTERED, w)"

subsection \<open>Other contexts and worlds of the concrete deployment\<close>

text \<open>A block time inside the first window of agent 1; a world in which the policy of
  agent 1 is paused; a world with a subscription of agent 1 that was due at time 100.\<close>

definition cx_early :: "TestUSDC ctx" where
  "cx_early = \<lparr>usdc = testUSDC, wallet_address = 99, timestamp = 50\<rparr>"

definition world_paused :: "TestUSDC world" where
  "world_paused = world0\<lparr>agents :=
     (\<lambda>_. zeroAgent)(1 := \<lparr>owner = alice, agent = delegate0,
        policy = policy0\<lparr>active := False\<rparr>\<rparr>)\<rparr>"

definition sub0 :: Subscription where
  "sub0 = \<lparr>merchant = shop, amountPerPeriod = 1000, periodSeconds = 60, nextExecutionAt = 100,
     subActive = True\<rparr>"

definition world_sub :: "TestUSDC world" where
  "world_sub = world0\<lparr>subscriptions :=
       (\<lambda>_ _. zeroSubscription)(1 := (\<lambda>_. zeroSubscription)(1 := sub0)),
     nextSubscriptionId := (\<lambda>_. 0)(1 := 1)\<rparr>"

subsection \<open>The window of an agent during a transaction\<close>


text \<open>Agent \<open>i\<close> has been allocated, its window started at \<open>l\<close>, and the events
  \<open>es\<close> are in the log.\<close>

definition window_inv :: "uint256 \<Rightarrow> uint64 \<Rightarrow> event list \<Rightarrow> 't world \<Rightarrow> bool" where
  "window_inv i l es w =
     (i \<le> nextAgentId w \<and> lastReset (policy (agents w i)) = l \<and> set es \<subseteq> set (events w))"





subsection \<open>Calls that whitelist a merchant\<close>

text \<open>The call \<^verbatim>\<open>setMerchantWhitelist(i, m, true)\<close>; a transaction that makes no such call,
  neither itself nor from the code it reaches; a world in which \<open>m\<close> is not whitelisted
  for agent \<open>i\<close>.\<close>

fun whitelists :: "uint256 \<Rightarrow> address \<Rightarrow> call \<Rightarrow> bool" where
  "whitelists i m (Call_setMerchantWhitelist i' m' b) = (i' = i \<and> m' = m \<and> b)"
| "whitelists i m c = False"

definition never_whitelists :: "uint256 \<Rightarrow> address \<Rightarrow> 't tx \<Rightarrow> bool" where
  "never_whitelists i m x =
     (\<not> whitelists i m (tx_call x)
      \<and> (\<forall>a d. calls_ok (\<lambda>s c. \<not> whitelists i m c) (tx_code x a d)))"

definition unlisted :: "uint256 \<Rightarrow> address \<Rightarrow> 't world \<Rightarrow> bool" where
  "unlisted i m w = (\<not> merchantWhitelist w i m)"

section \<open>Unfolding rules\<close>

lemmas example_defs = alice_def delegate0_def shop_def cx0_def policy0_def world0_def
  ext_fail_def ext_ok_def

lemmas wallet_defs = agentExists_def onlyAgent_def onlyAgentOwner_def nonReentrant_def
  onlyOwner_def resetIfNeeded_def reset_due_def one_day_def set_policy_def validateLimits_def
  checked_add_def checked_sub_def NOT_ENTERED_def ENTERED_def no_value_def with_value_def

lemmas token_defs = testUSDC_def usdc_transfer_def usdc_transferFrom_def usdc_move_def
  usdc_approve_def

section \<open>Code outside the contract preserves what every call preserves\<close>

text \<open>If every successful call of the wallet preserves a property of the world, whatever
  code it reaches as long as that code preserves the property, and the token state does not
  matter to the property, then every code tree preserves it.\<close>

lemma run_preserves:
  assumes step: "\<And>ext sender c w w' v.
       (\<And>m d w. I w \<Longrightarrow> I (snd (ext m d w))) \<Longrightarrow> ok sender c \<Longrightarrow> I w \<Longrightarrow>
       dispatch cx ext sender c w = Inr (w', v) \<Longrightarrow> I w'"
    and tok: "\<And>w t. I w \<Longrightarrow> I (w\<lparr>token := t\<rparr>)"
  shows "calls_ok ok c \<Longrightarrow> I w \<Longrightarrow> I (snd (run cx c w))"
proof (induction c arbitrary: w)
  case (Return b)
  then show ?case by simp
next
  case (Observe f)
  then show ?case by simp
next
  case (CallWallet sender c code k)
  have ext: "\<And>m d w. I w \<Longrightarrow> I (snd (run cx (code m d) w))"
  proof -
    fix m d w assume "I w"
    moreover have "code m \<in> range code" "code m d \<in> range (code m)" by (rule rangeI)+
    moreover have "calls_ok ok (code m d)" using CallWallet.prems(1) by simp
    ultimately show "I (snd (run cx (code m d) w))" using CallWallet.IH(1) by blast
  qed
  have "I (fst (exec cx (\<lambda>m d. run cx (code m d)) sender c w))"
    using step [of "\<lambda>m d. run cx (code m d)" sender c w] ext CallWallet.prems
    by (auto simp: exec_def split: sum.splits prod.splits)
  moreover have "\<And>r w. I w \<Longrightarrow> I (snd (run cx (k r) w))"
    using CallWallet.IH(2) CallWallet.prems(1) by (simp add: rangeI)
  ultimately show ?case
    by (auto split: prod.splits)
next
  case (CallToken sender tc k)
  then show ?case
    by (simp add: rangeI tok split: prod.splits)
next
  case (Frame c k)
  have sub: "I (snd (run cx c w))"
    using Frame.IH(1) Frame.prems by simp
  have cont: "\<And>b w. I w \<Longrightarrow> I (snd (run cx (k b) w))"
    using Frame.IH(2) Frame.prems(1) by (simp add: rangeI)
  show ?case
  proof (cases "run cx c w")
    case (Pair b w')
    with sub cont Frame.prems(2) show ?thesis by simp
  qed
qed

lemma settle_preserves:
  assumes ext: "\<And>m d w. I w \<Longrightarrow> I (snd (ext m d w))"
    and tok: "\<And>w t. I w \<Longrightarrow> I (w\<lparr>token := t\<rparr>)"
    and w: "I w"
    and res: "settle cx ext mrch amount data w = Inr w'"
  shows "I w'"
proof (cases "length data = 0")
  case True
  with res obtain t' where "w' = w\<lparr>token := t'\<rparr>"
    by (auto simp: settle_def split: option.splits if_splits)
  with w tok show ?thesis by simp
next
  case False
  with res obtain t2 where call: "ext mrch data (w\<lparr>token := t2\<rparr>) = (True, w')"
    by (auto simp: settle_def split: option.splits if_splits sum.splits prod.splits)
  have "I (snd (ext mrch data (w\<lparr>token := t2\<rparr>)))"
    using ext tok w by blast
  with call show ?thesis by simp
qed

lemma nonReentrant_preserves:
  assumes res: "nonReentrant body w = Inr w'"
    and w: "I w"
    and st: "\<And>w x. I (w\<lparr>status := x\<rparr>) = I w"
    and body: "\<And>w w'. I w \<Longrightarrow> body w = Inr w' \<Longrightarrow> I w'"
  shows "I w'"
  using res w body [of "w\<lparr>status := ENTERED\<rparr>"] st
  by (auto simp: nonReentrant_def split: if_splits sum.splits)

lemma validateLimits_None:
  "validateLimits dl ptl = None \<Longrightarrow> 0 < dl \<and> 0 < ptl \<and> ptl \<le> dl"
  by (auto simp: validateLimits_def word_greater_zero_iff split: if_splits)

lemma checked_add_Some: "checked_add a b = Some c \<Longrightarrow> c = a + b \<and> unat c = unat a + unat b"
  by (auto simp: checked_add_def unat_add_lem [THEN iffD1] split: if_splits)

text \<open>The body of \<^verbatim>\<open>executeSubscription\<close> under its modifiers.\<close>

lemma executeSubscription_Inr:
  assumes "executeSubscription cx ext i j data w = Inr w'"
  obtains t :: uint256 and w2 where
    "processPayment cx ext i (merchant (subscriptions w i j))
       (amountPerPeriod (subscriptions w i j)) data
       (w\<lparr>status := ENTERED,
          subscriptions := (subscriptions w)(i := (subscriptions w i)
            (j := (subscriptions w i j)\<lparr>nextExecutionAt := ucast t\<rparr>))\<rparr>) = Inr w2"
    "w' = w2\<lparr>events := events w2 @
            [SubscriptionExecuted i j (amountPerPeriod (subscriptions w2 i j))],
          status := NOT_ENTERED\<rparr>"
proof -
  from assms have "\<exists>(t :: uint256) w2.
    processPayment cx ext i (merchant (subscriptions w i j))
       (amountPerPeriod (subscriptions w i j)) data
       (w\<lparr>status := ENTERED,
          subscriptions := (subscriptions w)(i := (subscriptions w i)
            (j := (subscriptions w i j)\<lparr>nextExecutionAt := ucast t\<rparr>))\<rparr>) = Inr w2
    \<and> w' = w2\<lparr>events := events w2 @
            [SubscriptionExecuted i j (amountPerPeriod (subscriptions w2 i j))],
          status := NOT_ENTERED\<rparr>"
    by (fastforce simp: executeSubscription_def agentExists_def nonReentrant_def Let_def
        split: if_splits option.splits sum.splits)
  then show thesis
    by (elim exE conjE) (rule that)
qed

lemma pay_Inr:
  assumes "pay cx ext sender i m amount data w = Inr w'"
  obtains w2 where
    "processPayment cx ext i m amount data (w\<lparr>status := ENTERED\<rparr>) = Inr w2"
    "w' = w2\<lparr>status := NOT_ENTERED\<rparr>"
proof -
  from assms have "\<exists>w2. processPayment cx ext i m amount data (w\<lparr>status := ENTERED\<rparr>) = Inr w2
      \<and> w' = w2\<lparr>status := NOT_ENTERED\<rparr>"
    by (auto simp: pay_def agentExists_def onlyAgent_def nonReentrant_def
        split: if_splits sum.splits)
  then show thesis
    by (elim exE conjE) (rule that)
qed

section \<open>The policy invariants\<close>

lemma policies_ok_set_policy:
  "policies_ok w \<Longrightarrow> (owner (agents w i) \<noteq> 0 \<Longrightarrow> policy_ok p) \<Longrightarrow>
     policies_ok (set_policy i p w)"
  by (auto simp: policies_ok_def set_policy_def)

lemma policies_ok_events [simp]: "policies_ok (w\<lparr>events := es\<rparr>) = policies_ok w"
  by (simp add: policies_ok_def)

lemma policies_ok_token [simp]: "policies_ok (w\<lparr>token := t\<rparr>) = policies_ok w"
  by (simp add: policies_ok_def)

lemma policies_ok_status [simp]: "policies_ok (w\<lparr>status := x\<rparr>) = policies_ok w"
  by (simp add: policies_ok_def)

lemma policies_ok_balances [simp]: "policies_ok (w\<lparr>balances := b\<rparr>) = policies_ok w"
  by (simp add: policies_ok_def)

lemma policies_ok_subscriptions [simp]: "policies_ok (w\<lparr>subscriptions := f\<rparr>) = policies_ok w"
  by (simp add: policies_ok_def)

lemma policies_ok_reset: "policies_ok w \<Longrightarrow> policies_ok (resetIfNeeded now i w)"
  unfolding resetIfNeeded_def Let_def
  by (auto simp: policies_ok_def set_policy_def policy_ok_def)

lemma processPayment_policies_ok:
  assumes ext: "\<And>m d w. policies_ok w \<Longrightarrow> policies_ok (snd (ext m d w))"
    and w: "policies_ok w"
    and res: "processPayment cx ext i mrch amount data w = Inr w'"
  shows "policies_ok w'"
proof -
  define w1 where "w1 = resetIfNeeded (timestamp cx) i w"
  define p where "p = policy (agents w1 i)"
  have w1: "policies_ok w1"
    using w by (simp add: w1_def policies_ok_reset)
  from res obtain sp b w2 where
    sp: "checked_add (spentToday p) amount = Some sp" and le: "\<not> dailyLimit p < sp"
    and st: "settle cx ext mrch amount data
               (set_policy i (p\<lparr>spentToday := sp\<rparr>) (w1\<lparr>balances := (balances w1)(i := b)\<rparr>)) = Inr w2"
    and w': "w' = w2\<lparr>events := events w2 @ [AgentPayment i mrch amount data]\<rparr>"
    unfolding processPayment_def Let_def w1_def [symmetric] p_def [symmetric]
    by (auto split: if_splits option.splits sum.splits)
  have "policies_ok (set_policy i (p\<lparr>spentToday := sp\<rparr>) (w1\<lparr>balances := (balances w1)(i := b)\<rparr>))"
  proof (rule policies_ok_set_policy)
    show "policies_ok (w1\<lparr>balances := (balances w1)(i := b)\<rparr>)" using w1 by simp
    assume "owner (agents (w1\<lparr>balances := (balances w1)(i := b)\<rparr>) i) \<noteq> 0"
    then have "policy_ok p" using w1 by (simp add: policies_ok_def p_def)
    with le show "policy_ok (p\<lparr>spentToday := sp\<rparr>)" by (simp add: policy_ok_def)
  qed
  then have "policies_ok w2"
    using settle_preserves [where I = policies_ok, OF ext _ _ st] by simp
  with w' show ?thesis by simp
qed

lemma dispatch_policies_ok:
  assumes ext: "\<And>m d w. policies_ok w \<Longrightarrow> policies_ok (snd (ext m d w))"
    and w: "policies_ok w"
    and res: "dispatch cx ext sender c w = Inr (w', v)"
  shows "policies_ok w'"
proof (cases c)
  case (Call_createAgent a dl ptl)
  with res w show ?thesis
    by (auto simp: with_value_def createAgent_def policies_ok_def policy_ok_def
        dest!: validateLimits_None split: if_splits option.splits sum.splits)
next
  case (Call_setAgentAddress i a)
  with res w show ?thesis
    by (auto simp: no_value_def setAgentAddress_def agentExists_def onlyAgentOwner_def
        policies_ok_def split: if_splits sum.splits)
next
  case (Call_deposit i amount)
  with res w show ?thesis
    by (auto simp: no_value_def deposit_def agentExists_def onlyAgentOwner_def
        nonReentrant_def policies_ok_def split: if_splits sum.splits option.splits prod.splits)
next
  case (Call_withdraw i amount)
  with res w show ?thesis
    by (auto simp: no_value_def withdraw_def agentExists_def onlyAgentOwner_def
        nonReentrant_def policies_ok_def split: if_splits sum.splits option.splits prod.splits)
next
  case (Call_emergencyWithdraw i)
  with res w show ?thesis
    by (auto simp: no_value_def emergencyWithdraw_def agentExists_def onlyAgentOwner_def Let_def
        nonReentrant_def policies_ok_def split: if_splits sum.splits option.splits prod.splits)
next
  case (Call_setPolicyActive i b)
  with res w show ?thesis
    by (auto simp: no_value_def setPolicyActive_def agentExists_def onlyAgentOwner_def
        set_policy_def policies_ok_def policy_ok_def split: if_splits sum.splits)
next
  case (Call_updateLimits i dl ptl)
  with res have r: "updateLimits cx sender i dl ptl w = Inr w'"
    by (auto simp: no_value_def split: sum.splits)
  then have v: "validateLimits dl ptl = None"
    by (auto simp: updateLimits_def agentExists_def onlyAgentOwner_def
        split: if_splits option.splits)
  define w1 where "w1 = resetIfNeeded (timestamp cx) i w"
  have w1: "policies_ok w1" using w by (simp add: w1_def policies_ok_reset)
  from r v have "w' = (set_policy i
       (if dl < spentToday (policy (agents w1 i))
        then (policy (agents w1 i))\<lparr>dailyLimit := dl, perTxLimit := ptl, spentToday := dl\<rparr>
        else (policy (agents w1 i))\<lparr>dailyLimit := dl, perTxLimit := ptl\<rparr>) w1)
       \<lparr>events := events w1 @ [PolicyLimitsUpdated i dl ptl]\<rparr>"
    by (auto simp: updateLimits_def agentExists_def onlyAgentOwner_def Let_def w1_def
        split: if_splits)
  moreover have "policy_ok (if dl < spentToday (policy (agents w1 i))
        then (policy (agents w1 i))\<lparr>dailyLimit := dl, perTxLimit := ptl, spentToday := dl\<rparr>
        else (policy (agents w1 i))\<lparr>dailyLimit := dl, perTxLimit := ptl\<rparr>)"
    using validateLimits_None [OF v] by (auto simp: policy_ok_def)
  ultimately show ?thesis
    using w1 by (simp add: policies_ok_set_policy)
next
  case (Call_setMerchantWhitelist i m b)
  with res w show ?thesis
    by (auto simp: no_value_def setMerchantWhitelist_def agentExists_def onlyAgentOwner_def
        policies_ok_def split: if_splits sum.splits)
next
  case (Call_pay i m amount data)
  with res have "pay cx ext sender i m amount data w = Inr w'"
    by (auto simp: no_value_def split: sum.splits)
  then obtain w2 where p: "processPayment cx ext i m amount data (w\<lparr>status := ENTERED\<rparr>) = Inr w2"
    and w': "w' = w2\<lparr>status := NOT_ENTERED\<rparr>"
    by (rule pay_Inr)
  have e: "policies_ok (w\<lparr>status := ENTERED\<rparr>)"
    using w by simp
  have "policies_ok w2"
    by (rule processPayment_policies_ok [OF ext e p])
  with w' show ?thesis by simp
next
  case (Call_createSubscription i m amount period first)
  with res w show ?thesis
    by (auto simp: with_value_def createSubscription_def agentExists_def onlyAgentOwner_def
        policies_ok_def split: if_splits sum.splits option.splits)
next
  case (Call_setSubscriptionStatus i j b)
  with res w show ?thesis
    by (auto simp: no_value_def setSubscriptionStatus_def agentExists_def onlyAgentOwner_def
        policies_ok_def Let_def split: if_splits sum.splits)
next
  case (Call_executeSubscription i j data)
  with res have "executeSubscription cx ext i j data w = Inr w'"
    by (auto simp: no_value_def split: sum.splits)
  then obtain t :: uint256 and w2 where
    p: "processPayment cx ext i (merchant (subscriptions w i j))
       (amountPerPeriod (subscriptions w i j)) data
       (w\<lparr>status := ENTERED,
          subscriptions := (subscriptions w)(i := (subscriptions w i)
            (j := (subscriptions w i j)\<lparr>nextExecutionAt := ucast t\<rparr>))\<rparr>) = Inr w2"
    and w': "w' = w2\<lparr>events := events w2 @
            [SubscriptionExecuted i j (amountPerPeriod (subscriptions w2 i j))],
          status := NOT_ENTERED\<rparr>"
    by (rule executeSubscription_Inr)
  have e: "policies_ok (w\<lparr>status := ENTERED,
          subscriptions := (subscriptions w)(i := (subscriptions w i)
            (j := (subscriptions w i j)\<lparr>nextExecutionAt := ucast t\<rparr>))\<rparr>)"
    using w by simp
  have "policies_ok w2"
    by (rule processPayment_policies_ok [OF ext e p])
  with w' show ?thesis by simp
next
  case (Call_transferOwnership a)
  with res w show ?thesis
    by (auto simp: no_value_def transferOwnership_def onlyOwner_def
        policies_ok_def split: if_splits sum.splits)
qed

lemma calls_ok_True: "calls_ok (\<lambda>s c. True) c"
  by (induction c) (auto simp: rangeI)

lemma transact_policies_ok:
  assumes "policies_ok w"
  shows "policies_ok (fst (transact cx code sender c w))"
proof -
  have code: "policies_ok (snd (run cx (code m d) w))" if "policies_ok w" for m d w
  proof (rule run_preserves [where I = policies_ok and ok = "\<lambda>s c. True"])
    fix ext sender c w w' v
    assume "\<And>m d w. policies_ok w \<Longrightarrow> policies_ok (snd (ext m d w))"
      and "policies_ok w" and "dispatch cx ext sender c w = Inr (w', v)"
    then show "policies_ok w'" by (rule dispatch_policies_ok)
  next
    fix w :: "'a world" and t
    assume "policies_ok w"
    then show "policies_ok (w\<lparr>token := t\<rparr>)" by simp
  next
    show "calls_ok (\<lambda>s c. True) (code m d)" by (rule calls_ok_True)
  next
    show "policies_ok w" by (rule that)
  qed
  show ?thesis
  proof (cases "dispatch cx (\<lambda>m d. run cx (code m d)) sender c w")
    case (Inl e)
    with assms show ?thesis by (simp add: transact_def exec_def)
  next
    case (Inr r)
    obtain w' v where r: "r = (w', v)" by (cases r)
    have "policies_ok w'"
      using dispatch_policies_ok [where ext = "\<lambda>m d. run cx (code m d)", OF code assms]
        Inr r by simp
    with Inr r show ?thesis by (simp add: transact_def exec_def)
  qed
qed

lemma run_txs_policies_ok: "policies_ok w \<Longrightarrow> policies_ok (run_txs tk self txs w)"
  by (induction txs arbitrary: w) (simp_all add: transact_policies_ok)

lemma deploy_policies_ok: "deploy sender t = Inr w \<Longrightarrow> policies_ok w"
  by (auto simp: deploy_def policies_ok_def zeroAgent_def split: if_splits)

text \<open>
  Claim C1. In every world reached from the deployment by a history of transactions,
  committed or failed, whatever code they reach, every agent (an identifier whose record has
  an owner) has \<open>spentToday \<le> dailyLimit\<close> and \<open>perTxLimit \<le> dailyLimit\<close>, and both limits
  are positive.
\<close>

theorem C1_policy_invariants:
  assumes "deploy deployer t0 = Inr w0"
  shows "\<forall>i. owner (agents (run_txs tk self txs w0) i) \<noteq> 0 \<longrightarrow>
      spentToday (policy (agents (run_txs tk self txs w0) i))
        \<le> dailyLimit (policy (agents (run_txs tk self txs w0) i))
    \<and> perTxLimit (policy (agents (run_txs tk self txs w0) i))
        \<le> dailyLimit (policy (agents (run_txs tk self txs w0) i))
    \<and> 0 < dailyLimit (policy (agents (run_txs tk self txs w0) i))
    \<and> 0 < perTxLimit (policy (agents (run_txs tk self txs w0) i))"
  using run_txs_policies_ok [OF deploy_policies_ok [OF assms], of tk self txs]
  by (simp add: policies_ok_def policy_ok_def)

text \<open>At the concrete deployment, after agent 1 was created and its limits were tightened,
  agent 1 has an owner and its policy satisfies the invariants.\<close>

theorem C1_policy_invariants_witness:
  "deploy 1 token0 = Inr genesis0
   \<and> owner (agents (run_txs testUSDC 99 [tx_create, tx_limits] genesis0) 1) \<noteq> 0
   \<and> spentToday (policy (agents (run_txs testUSDC 99 [tx_create, tx_limits] genesis0) 1))
        \<le> dailyLimit (policy (agents (run_txs testUSDC 99 [tx_create, tx_limits] genesis0) 1))
   \<and> perTxLimit (policy (agents (run_txs testUSDC 99 [tx_create, tx_limits] genesis0) 1))
        \<le> dailyLimit (policy (agents (run_txs testUSDC 99 [tx_create, tx_limits] genesis0) 1))
   \<and> 0 < dailyLimit (policy (agents (run_txs testUSDC 99 [tx_create, tx_limits] genesis0) 1))
   \<and> 0 < perTxLimit (policy (agents (run_txs testUSDC 99 [tx_create, tx_limits] genesis0) 1))"
proof -
  have d: "deploy 1 token0 = Inr genesis0"
    by (simp add: deploy_def genesis0_def)
  have o: "owner (agents (run_txs testUSDC 99 [tx_create, tx_limits] genesis0) 1) \<noteq> 0"
    by (simp add: transact_def exec_def createAgent_def updateLimits_def wallet_defs
        genesis0_def tx_create_def tx_limits_def alice_def delegate0_def)
  from C1_policy_invariants [OF d, of testUSDC 99 "[tx_create, tx_limits]"] d o
  show ?thesis by blast
qed


section \<open>Agent identifiers\<close>

lemma ids_ok_same:
  "(\<And>i. owner (agents w' i) = owner (agents w i)) \<Longrightarrow> nextAgentId w' = nextAgentId w \<Longrightarrow>
     ids_ok w' = ids_ok w"
  by (simp add: ids_ok_def)

lemma ids_ok_events [simp]: "ids_ok (w\<lparr>events := es\<rparr>) = ids_ok w"
  by (simp add: ids_ok_def)

lemma ids_ok_token [simp]: "ids_ok (w\<lparr>token := t\<rparr>) = ids_ok w"
  by (simp add: ids_ok_def)

lemma ids_ok_status [simp]: "ids_ok (w\<lparr>status := x\<rparr>) = ids_ok w"
  by (simp add: ids_ok_def)

lemma ids_ok_balances [simp]: "ids_ok (w\<lparr>balances := b\<rparr>) = ids_ok w"
  by (simp add: ids_ok_def)

lemma ids_ok_subscriptions [simp]: "ids_ok (w\<lparr>subscriptions := f\<rparr>) = ids_ok w"
  by (simp add: ids_ok_def)

lemma ids_ok_set_policy [simp]: "ids_ok (set_policy i p w) = ids_ok w"
  by (rule ids_ok_same) (simp_all add: set_policy_def)

lemma ids_ok_reset [simp]: "ids_ok (resetIfNeeded now i w) = ids_ok w"
  by (simp add: resetIfNeeded_def Let_def)

lemma ids_ok_fresh:
  assumes w: "ids_ok w" and n: "checked_add (nextAgentId w) 1 = Some n" and s: "sender \<noteq> 0"
  shows "ids_ok (w\<lparr>nextAgentId := n,
            agents := (agents w)(n := \<lparr>owner = sender, agent = a, policy = p\<rparr>), events := es\<rparr>)"
proof -
  have u: "unat n = unat (nextAgentId w) + 1"
    using checked_add_Some [OF n, THEN conjunct2] by simp
  have "(owner (if i = n then \<lparr>owner = sender, agent = a, policy = p\<rparr> else agents w i) \<noteq> 0)
      = (0 < i \<and> i \<le> n)" for i
  proof (cases "i = n")
    case True
    have "0 < unat n" using u by simp
    then have "0 < n" by (simp add: word_less_nat_alt)
    with True s show ?thesis by simp
  next
    case False
    then have "unat i \<noteq> unat n" by (simp add: word_unat_eq_iff)
    then have "(unat i \<le> unat n) = (unat i \<le> unat (nextAgentId w))"
      using u by arith
    then have "(i \<le> n) = (i \<le> nextAgentId w)"
      by (simp add: word_le_nat_alt)
    with False w show ?thesis by (simp add: ids_ok_def)
  qed
  then show ?thesis
    by (simp add: ids_ok_def)
qed

lemma processPayment_ids_ok:
  assumes ext: "\<And>m d w. ids_ok w \<Longrightarrow> ids_ok (snd (ext m d w))"
    and w: "ids_ok w"
    and res: "processPayment cx ext i mrch amount data w = Inr w'"
  shows "ids_ok w'"
proof -
  define w1 where "w1 = resetIfNeeded (timestamp cx) i w"
  define p where "p = policy (agents w1 i)"
  from res obtain sp b w2 where
    st: "settle cx ext mrch amount data
               (set_policy i (p\<lparr>spentToday := sp\<rparr>) (w1\<lparr>balances := (balances w1)(i := b)\<rparr>)) = Inr w2"
    and w': "w' = w2\<lparr>events := events w2 @ [AgentPayment i mrch amount data]\<rparr>"
    unfolding processPayment_def Let_def w1_def [symmetric] p_def [symmetric]
    by (auto split: if_splits option.splits sum.splits)
  have "ids_ok (set_policy i (p\<lparr>spentToday := sp\<rparr>) (w1\<lparr>balances := (balances w1)(i := b)\<rparr>))"
    using w by (simp add: w1_def)
  then have "ids_ok w2"
    using settle_preserves [where I = ids_ok, OF ext _ _ st] by simp
  with w' show ?thesis by simp
qed

lemma dispatch_ids_ok:
  assumes ext: "\<And>m d w. ids_ok w \<Longrightarrow> ids_ok (snd (ext m d w))"
    and ok: "creator_ok sender c"
    and w: "ids_ok w"
    and res: "dispatch cx ext sender c w = Inr (w', v)"
  shows "ids_ok w'"
proof (cases c)
  case (Call_createAgent a dl ptl)
  from res Call_createAgent obtain n where
    n: "checked_add (nextAgentId w) 1 = Some n"
    and w': "w' = w\<lparr>nextAgentId := n,
        agents := (agents w)(n := \<lparr>owner = sender, agent = a,
           policy = \<lparr>active = True, dailyLimit = dl, perTxLimit = ptl,
                     spentToday = 0, lastReset = ucast (timestamp cx)\<rparr>\<rparr>),
        events := events w @ [AgentCreated n sender a]\<rparr>"
    by (auto simp: with_value_def createAgent_def split: if_splits option.splits sum.splits)
  from ok Call_createAgent have "sender \<noteq> 0" by simp
  from ids_ok_fresh [OF w n this] w' show ?thesis by simp
next
  case (Call_setAgentAddress i a)
  with res have "ids_ok w' = ids_ok w"
    by (intro ids_ok_same)
       (auto simp: no_value_def setAgentAddress_def agentExists_def onlyAgentOwner_def
        split: if_splits sum.splits)
  with w show ?thesis by simp
next
  case (Call_deposit i amount)
  with res have "ids_ok w' = ids_ok w"
    by (intro ids_ok_same)
       (auto simp: no_value_def deposit_def agentExists_def onlyAgentOwner_def
        nonReentrant_def split: if_splits sum.splits option.splits prod.splits)
  with w show ?thesis by simp
next
  case (Call_withdraw i amount)
  with res have "ids_ok w' = ids_ok w"
    by (intro ids_ok_same)
       (auto simp: no_value_def withdraw_def agentExists_def onlyAgentOwner_def
        nonReentrant_def split: if_splits sum.splits option.splits prod.splits)
  with w show ?thesis by simp
next
  case (Call_emergencyWithdraw i)
  with res have "ids_ok w' = ids_ok w"
    by (intro ids_ok_same)
       (auto simp: no_value_def emergencyWithdraw_def agentExists_def onlyAgentOwner_def Let_def
        nonReentrant_def split: if_splits sum.splits option.splits prod.splits)
  with w show ?thesis by simp
next
  case (Call_setPolicyActive i b)
  with res have "ids_ok w' = ids_ok w"
    by (auto simp: no_value_def setPolicyActive_def agentExists_def onlyAgentOwner_def
        split: if_splits sum.splits)
  with w show ?thesis by simp
next
  case (Call_updateLimits i dl ptl)
  with res have "ids_ok w' = ids_ok w"
    by (auto simp: no_value_def updateLimits_def agentExists_def onlyAgentOwner_def Let_def
        split: if_splits sum.splits option.splits)
  with w show ?thesis by simp
next
  case (Call_setMerchantWhitelist i m b)
  with res have "ids_ok w' = ids_ok w"
    by (intro ids_ok_same)
       (auto simp: no_value_def setMerchantWhitelist_def agentExists_def onlyAgentOwner_def
        split: if_splits sum.splits)
  with w show ?thesis by simp
next
  case (Call_pay i m amount data)
  with res have "pay cx ext sender i m amount data w = Inr w'"
    by (auto simp: no_value_def split: sum.splits)
  then obtain w2 where p: "processPayment cx ext i m amount data (w\<lparr>status := ENTERED\<rparr>) = Inr w2"
    and w': "w' = w2\<lparr>status := NOT_ENTERED\<rparr>"
    by (rule pay_Inr)
  have e: "ids_ok (w\<lparr>status := ENTERED\<rparr>)"
    using w by simp
  have "ids_ok w2"
    by (rule processPayment_ids_ok [OF ext e p])
  with w' show ?thesis by simp
next
  case (Call_createSubscription i m amount period first)
  with res have "ids_ok w' = ids_ok w"
    by (intro ids_ok_same)
       (auto simp: with_value_def createSubscription_def agentExists_def onlyAgentOwner_def
        split: if_splits sum.splits option.splits)
  with w show ?thesis by simp
next
  case (Call_setSubscriptionStatus i j b)
  with res have "ids_ok w' = ids_ok w"
    by (intro ids_ok_same)
       (auto simp: no_value_def setSubscriptionStatus_def agentExists_def onlyAgentOwner_def
        Let_def split: if_splits sum.splits)
  with w show ?thesis by simp
next
  case (Call_executeSubscription i j data)
  with res have "executeSubscription cx ext i j data w = Inr w'"
    by (auto simp: no_value_def split: sum.splits)
  then obtain t :: uint256 and w2 where
    p: "processPayment cx ext i (merchant (subscriptions w i j))
       (amountPerPeriod (subscriptions w i j)) data
       (w\<lparr>status := ENTERED,
          subscriptions := (subscriptions w)(i := (subscriptions w i)
            (j := (subscriptions w i j)\<lparr>nextExecutionAt := ucast t\<rparr>))\<rparr>) = Inr w2"
    and w': "w' = w2\<lparr>events := events w2 @
            [SubscriptionExecuted i j (amountPerPeriod (subscriptions w2 i j))],
          status := NOT_ENTERED\<rparr>"
    by (rule executeSubscription_Inr)
  have e: "ids_ok (w\<lparr>status := ENTERED,
          subscriptions := (subscriptions w)(i := (subscriptions w i)
            (j := (subscriptions w i j)\<lparr>nextExecutionAt := ucast t\<rparr>))\<rparr>)"
    using w by simp
  have "ids_ok w2"
    by (rule processPayment_ids_ok [OF ext e p])
  with w' show ?thesis by simp
next
  case (Call_transferOwnership a)
  with res have "ids_ok w' = ids_ok w"
    by (intro ids_ok_same)
       (auto simp: no_value_def transferOwnership_def onlyOwner_def split: if_splits sum.splits)
  with w show ?thesis by simp
qed

lemma transact_ids_ok:
  assumes w: "ids_ok w" and ok: "creator_ok sender c"
    and code_ok: "\<And>m d. calls_ok creator_ok (code m d)"
  shows "ids_ok (fst (transact cx code sender c w))"
proof -
  have code: "ids_ok (snd (run cx (code m d) w))" if "ids_ok w" for m d w
  proof (rule run_preserves [where I = ids_ok and ok = creator_ok])
    fix ext sender c w w' v
    assume "\<And>m d w. ids_ok w \<Longrightarrow> ids_ok (snd (ext m d w))"
      and "creator_ok sender c" and "ids_ok w" and "dispatch cx ext sender c w = Inr (w', v)"
    then show "ids_ok w'" by (rule dispatch_ids_ok)
  next
    fix w :: "'a world" and t
    assume "ids_ok w"
    then show "ids_ok (w\<lparr>token := t\<rparr>)" by simp
  next
    show "calls_ok creator_ok (code m d)" by (rule code_ok)
  next
    show "ids_ok w" by (rule that)
  qed
  show ?thesis
  proof (cases "dispatch cx (\<lambda>m d. run cx (code m d)) sender c w")
    case (Inl e)
    with w show ?thesis by (simp add: transact_def exec_def)
  next
    case (Inr r)
    obtain w' v where r: "r = (w', v)" by (cases r)
    have "ids_ok w'"
      using dispatch_ids_ok [where ext = "\<lambda>m d. run cx (code m d)", OF code ok w]
        Inr r by simp
    with Inr r show ?thesis by (simp add: transact_def exec_def)
  qed
qed

lemma run_txs_ids_ok:
  "ids_ok w \<Longrightarrow> \<forall>x \<in> set txs. tx_ok x \<Longrightarrow> ids_ok (run_txs tk self txs w)"
  by (induction txs arbitrary: w) (simp_all add: transact_ids_ok tx_ok_def)

lemma deploy_ids_ok: "deploy sender t = Inr w \<Longrightarrow> ids_ok w \<and> nextAgentId w = 0"
  by (auto simp: deploy_def ids_ok_def zeroAgent_def word_le_nat_alt word_less_nat_alt
      split: if_splits)

lemma ids_ok_zero:
  assumes "ids_ok w"
  shows "owner (agents w 0) = 0"
proof -
  from assms have "(owner (agents w 0) \<noteq> 0) = (0 < (0 :: uint256) \<and> 0 \<le> nextAgentId w)"
    unfolding ids_ok_def by (rule spec)
  then show ?thesis by simp
qed

lemma createAgent_id:
  assumes "createAgent cx sender a dl ptl w = Inr (w', v)"
  shows "unat v = unat (nextAgentId w) + 1 \<and> nextAgentId w' = v"
proof -
  from assms have "checked_add (nextAgentId w) 1 = Some v" and n: "nextAgentId w' = v"
    by (auto simp: createAgent_def split: if_splits option.splits)
  from checked_add_Some [OF this(1), THEN conjunct2] n show ?thesis by simp
qed

text \<open>
  Claim C10. The deployment starts the counter at 0 and \<^verbatim>\<open>createAgent\<close> returns the
  counter after a checked increment, so the first identifier is 1. In every world reached
  by a history in which no \<^verbatim>\<open>createAgent\<close> is called by the null address (neither by a
  transaction nor by the code it reaches), the identifiers whose record has an owner are
  exactly those from 1 to \<open>nextAgentId\<close>, and every accessor applied to identifier 0 fails
  with \<open>AgentNotFound\<close>.
\<close>

theorem C10_agent_ids:
  assumes d: "deploy deployer t0 = Inr w0" and txs: "\<forall>x \<in> set txs. tx_ok x"
  shows "nextAgentId w0 = 0
    \<and> (\<forall>i. (owner (agents (run_txs tk self txs w0) i) \<noteq> 0)
           = (0 < i \<and> i \<le> nextAgentId (run_txs tk self txs w0)))
    \<and> (\<forall>cx sender a dl ptl w' v.
          createAgent cx sender a dl ptl (run_txs tk self txs w0) = Inr (w', v) \<longrightarrow>
            unat v = unat (nextAgentId (run_txs tk self txs w0)) + 1 \<and> nextAgentId w' = v)
    \<and> agent_view 0 (run_txs tk self txs w0) = Inl AgentNotFound
    \<and> balanceOf 0 (run_txs tk self txs w0) = Inl AgentNotFound
    \<and> isMerchantWhitelisted 0 m (run_txs tk self txs w0) = Inl AgentNotFound
    \<and> spentToday_view cx' 0 (run_txs tk self txs w0) = Inl AgentNotFound
    \<and> subscription_view 0 j (run_txs tk self txs w0) = Inl AgentNotFound
    \<and> nextSubscriptionId_view 0 (run_txs tk self txs w0) = Inl AgentNotFound"
proof -
  have ok: "ids_ok (run_txs tk self txs w0)"
    using deploy_ids_ok [OF d] txs by (simp add: run_txs_ids_ok)
  have z: "owner (agents (run_txs tk self txs w0) 0) = 0"
    using ok by (rule ids_ok_zero)
  have c: "\<forall>cx sender a dl ptl w' v.
          createAgent cx sender a dl ptl (run_txs tk self txs w0) = Inr (w', v) \<longrightarrow>
            unat v = unat (nextAgentId (run_txs tk self txs w0)) + 1 \<and> nextAgentId w' = v"
    by (intro allI impI) (rule createAgent_id)
  show ?thesis
    using deploy_ids_ok [OF d] ok z c
    by (simp add: ids_ok_def agent_view_def balanceOf_def isMerchantWhitelisted_def
        spentToday_view_def subscription_view_def nextSubscriptionId_view_def agentExists_def)
qed

text \<open>At the concrete deployment, after agent 1 was created and its limits were tightened,
  the counter is 1, identifier 1 has an owner, identifiers 0 and 2 have none, and the balance
  accessor fails on identifier 0.\<close>

theorem C10_agent_ids_witness:
  "deploy 1 token0 = Inr genesis0
   \<and> tx_ok tx_create \<and> tx_ok tx_limits
   \<and> nextAgentId (run_txs testUSDC 99 [tx_create, tx_limits] genesis0) = 1
   \<and> owner (agents (run_txs testUSDC 99 [tx_create, tx_limits] genesis0) 1) \<noteq> 0
   \<and> owner (agents (run_txs testUSDC 99 [tx_create, tx_limits] genesis0) 0) = 0
   \<and> owner (agents (run_txs testUSDC 99 [tx_create, tx_limits] genesis0) 2) = 0
   \<and> balanceOf 0 (run_txs testUSDC 99 [tx_create, tx_limits] genesis0) = Inl AgentNotFound"
proof -
  define W where "W = run_txs testUSDC 99 [tx_create, tx_limits] genesis0"
  have d: "deploy 1 token0 = Inr genesis0"
    by (simp add: deploy_def genesis0_def)
  have t: "\<forall>x \<in> set [tx_create, tx_limits]. tx_ok x"
    by (simp add: tx_ok_def tx_create_def tx_limits_def alice_def)
  have n: "nextAgentId W = 1"
    unfolding W_def
    by (simp add: transact_def exec_def createAgent_def updateLimits_def wallet_defs
        genesis0_def tx_create_def tx_limits_def alice_def delegate0_def)
  note th = C10_agent_ids [OF d t, of testUSDC 99, folded W_def]
  from th have ids: "\<forall>i. (owner (agents W i) \<noteq> 0) = (0 < i \<and> i \<le> nextAgentId W)"
    by (rule conjunct2 [THEN conjunct1])
  have i1: "owner (agents W 1) \<noteq> 0"
    using ids [THEN spec, of 1] n by simp
  have i0: "owner (agents W 0) = 0"
    using ids [THEN spec, of 0] by simp
  have i2: "owner (agents W 2) = 0"
    using ids [THEN spec, of 2] n by (simp add: word_le_nat_alt)
  from th have b: "balanceOf 0 W = Inl AgentNotFound"
    by (rule conjunct2 [THEN conjunct2, THEN conjunct2, THEN conjunct2, THEN conjunct1])
  have t': "tx_ok tx_create" "tx_ok tx_limits"
    using t by simp_all
  show ?thesis
    using d t' n i1 i0 i2 b unfolding W_def by blast
qed

section \<open>The payment pipeline\<close>

lemma reset_fields [simp]:
  "balances (resetIfNeeded now i w) = balances w"
  "merchantWhitelist (resetIfNeeded now i w) = merchantWhitelist w"
  "status (resetIfNeeded now i w) = status w"
  "token (resetIfNeeded now i w) = token w"
  "subscriptions (resetIfNeeded now i w) = subscriptions w"
  "nextAgentId (resetIfNeeded now i w) = nextAgentId w"
  "owner (agents (resetIfNeeded now i w) j) = owner (agents w j)"
  "agent (agents (resetIfNeeded now i w) j) = agent (agents w j)"
  by (simp_all add: resetIfNeeded_def set_policy_def Let_def)

lemma reset_status: "resetIfNeeded now i (w\<lparr>status := x\<rparr>) = (resetIfNeeded now i w)\<lparr>status := x\<rparr>"
  by (simp add: resetIfNeeded_def set_policy_def Let_def)

lemma reset_policy:
  "policy (agents (resetIfNeeded now i w) i) =
     (if reset_due now (policy (agents w i))
      then (policy (agents w i))\<lparr>spentToday := 0, lastReset := ucast now\<rparr>
      else policy (agents w i))"
  by (simp add: resetIfNeeded_def set_policy_def Let_def)

lemma checked_add_None: "(checked_add a b = None) = (2 ^ 256 \<le> unat a + unat b)"
  by (auto simp: checked_add_def)

lemma checked_sub_Some: "b \<le> a \<Longrightarrow> checked_sub a b = Some (a - b)"
  by (simp add: checked_sub_def)

text \<open>After the entry validation, \<^verbatim>\<open>pay\<close> is \<^verbatim>\<open>_processPayment\<close> under the latch.\<close>

lemma pay_entry:
  assumes "owner (agents w i) \<noteq> 0" "agent (agents w i) = sender" "status w \<noteq> ENTERED"
    "m \<noteq> 0" "amount \<noteq> 0"
  shows "pay cx ext sender i m amount data w =
     (case processPayment cx ext i m amount data (w\<lparr>status := ENTERED\<rparr>) of
        Inl e \<Rightarrow> Inl e
      | Inr w' \<Rightarrow> Inr (w'\<lparr>status := NOT_ENTERED\<rparr>))"
  using assms by (simp add: pay_def agentExists_def onlyAgent_def nonReentrant_def)

text \<open>The checks of \<^verbatim>\<open>_processPayment\<close>, in the order of the source, on the policy the
  window reset leaves.\<close>

lemma processPayment_checks:
  fixes w :: "'t world" and cx :: "'t ctx" and i :: uint256
  defines "p \<equiv> policy (agents (resetIfNeeded (timestamp cx) i w) i)"
  shows "\<not> active p \<Longrightarrow> processPayment cx ext i m amount data w = Inl PolicyInactive"
    and "active p \<Longrightarrow> \<not> merchantWhitelist w i m \<Longrightarrow>
           processPayment cx ext i m amount data w = Inl MerchantNotAllowed"
    and "active p \<Longrightarrow> merchantWhitelist w i m \<Longrightarrow> perTxLimit p < amount \<Longrightarrow>
           processPayment cx ext i m amount data w = Inl PerTxLimitExceeded"
    and "active p \<Longrightarrow> merchantWhitelist w i m \<Longrightarrow> \<not> perTxLimit p < amount \<Longrightarrow>
           2 ^ 256 \<le> unat (spentToday p) + unat amount \<Longrightarrow>
           processPayment cx ext i m amount data w = Inl Panic"
    and "active p \<Longrightarrow> merchantWhitelist w i m \<Longrightarrow> \<not> perTxLimit p < amount \<Longrightarrow>
           unat (spentToday p) + unat amount < 2 ^ 256 \<Longrightarrow>
           unat (dailyLimit p) < unat (spentToday p) + unat amount \<Longrightarrow>
           processPayment cx ext i m amount data w = Inl DailyLimitExceeded"
    and "active p \<Longrightarrow> merchantWhitelist w i m \<Longrightarrow> \<not> perTxLimit p < amount \<Longrightarrow>
           unat (spentToday p) + unat amount \<le> unat (dailyLimit p) \<Longrightarrow>
           balances w i < amount \<Longrightarrow>
           processPayment cx ext i m amount data w = Inl InsufficientBalance"
proof -
  show "\<not> active p \<Longrightarrow> processPayment cx ext i m amount data w = Inl PolicyInactive"
    by (simp add: processPayment_def Let_def p_def)
  show "active p \<Longrightarrow> \<not> merchantWhitelist w i m \<Longrightarrow>
           processPayment cx ext i m amount data w = Inl MerchantNotAllowed"
    by (simp add: processPayment_def Let_def p_def)
  show "active p \<Longrightarrow> merchantWhitelist w i m \<Longrightarrow> perTxLimit p < amount \<Longrightarrow>
           processPayment cx ext i m amount data w = Inl PerTxLimitExceeded"
    by (simp add: processPayment_def Let_def p_def)
  show "active p \<Longrightarrow> merchantWhitelist w i m \<Longrightarrow> \<not> perTxLimit p < amount \<Longrightarrow>
           2 ^ 256 \<le> unat (spentToday p) + unat amount \<Longrightarrow>
           processPayment cx ext i m amount data w = Inl Panic"
    by (simp add: processPayment_def Let_def p_def checked_add_def)
  show "active p \<Longrightarrow> merchantWhitelist w i m \<Longrightarrow> \<not> perTxLimit p < amount \<Longrightarrow>
           unat (spentToday p) + unat amount < 2 ^ 256 \<Longrightarrow>
           unat (dailyLimit p) < unat (spentToday p) + unat amount \<Longrightarrow>
           processPayment cx ext i m amount data w = Inl DailyLimitExceeded"
    by (simp add: processPayment_def Let_def p_def checked_add_def word_less_nat_alt
        unat_add_lem [THEN iffD1])
  show "active p \<Longrightarrow> merchantWhitelist w i m \<Longrightarrow> \<not> perTxLimit p < amount \<Longrightarrow>
           unat (spentToday p) + unat amount \<le> unat (dailyLimit p) \<Longrightarrow>
           balances w i < amount \<Longrightarrow>
           processPayment cx ext i m amount data w = Inl InsufficientBalance"
  proof -
    assume a: "active p" "merchantWhitelist w i m" "\<not> perTxLimit p < amount"
      "unat (spentToday p) + unat amount \<le> unat (dailyLimit p)" "balances w i < amount"
    have "unat (dailyLimit p) < 2 ^ 256"
      using unsigned_less [of "dailyLimit p"] by simp
    with a(4) have fit: "unat (spentToday p) + unat amount < 2 ^ 256" by simp
    then have "unat (spentToday p + amount) = unat (spentToday p) + unat amount"
      by (simp add: unat_add_lem [THEN iffD1])
    with a(4) have "\<not> dailyLimit p < spentToday p + amount"
      by (simp add: word_less_nat_alt)
    with a fit show ?thesis
      by (simp add: processPayment_def Let_def p_def [symmetric] checked_add_def)
  qed
qed


text \<open>The world in which the settlement starts: the window reset applied, the balance
  debited and the spend accounted.\<close>

lemma processPayment_commit:
  fixes w :: "'t world" and cx :: "'t ctx" and i :: uint256
  defines "p \<equiv> policy (agents (resetIfNeeded (timestamp cx) i w) i)"
  assumes "active p" "merchantWhitelist w i m" "\<not> perTxLimit p < amount"
    "unat (spentToday p) + unat amount \<le> unat (dailyLimit p)" "\<not> balances w i < amount"
  shows "processPayment cx ext i m amount data w =
     (case settle cx ext m amount data
             (set_policy i (p\<lparr>spentToday := spentToday p + amount\<rparr>)
                ((resetIfNeeded (timestamp cx) i w)
                   \<lparr>balances := (balances w)(i := balances w i - amount)\<rparr>)) of
        Inl e \<Rightarrow> Inl e
      | Inr w' \<Rightarrow> Inr (w'\<lparr>events := events w' @ [AgentPayment i m amount data]\<rparr>))"
proof -
  have "unat (dailyLimit p) < 2 ^ 256"
    using unsigned_less [of "dailyLimit p"] by simp
  with assms(5) have fit: "unat (spentToday p) + unat amount < 2 ^ 256" by simp
  then have "unat (spentToday p + amount) = unat (spentToday p) + unat amount"
    by (simp add: unat_add_lem [THEN iffD1])
  with assms(5) have "\<not> dailyLimit p < spentToday p + amount"
    by (simp add: word_less_nat_alt)
  moreover have "amount \<le> balances w i"
    using assms(6) by simp
  ultimately show ?thesis
    using assms(2-4) fit
    by (simp add: processPayment_def Let_def p_def [symmetric] checked_add_def checked_sub_def
        leD)
qed

text \<open>
  The checks of \<^verbatim>\<open>pay\<close> as the source evaluates them. A call that passes the entry
  validation (the agent exists, the caller is its delegate, the latch is free, the merchant
  is not null, the amount is not zero) evaluates the checks on the policy the window reset
  leaves, in this order: active, whitelist, per transaction, daily, balance. The sum
  \<open>spentToday + amount\<close> of the daily check is a checked addition. When every check
  passes, the result is that of the settlement in the committed world.
\<close>

lemma pay_check_order:
  fixes w :: "'t world" and cx :: "'t ctx" and i :: uint256
  defines "p \<equiv> policy (agents (resetIfNeeded (timestamp cx) i w) i)"
  assumes "owner (agents w i) \<noteq> 0" and "agent (agents w i) = sender"
    and "status w \<noteq> ENTERED" and "m \<noteq> 0" and "amount \<noteq> 0"
  shows "pay cx ext sender i m amount data w =
     (if \<not> active p then Inl PolicyInactive
      else if \<not> merchantWhitelist w i m then Inl MerchantNotAllowed
      else if perTxLimit p < amount then Inl PerTxLimitExceeded
      else if 2 ^ 256 \<le> unat (spentToday p) + unat amount then Inl Panic
      else if unat (dailyLimit p) < unat (spentToday p) + unat amount
        then Inl DailyLimitExceeded
      else if balances w i < amount then Inl InsufficientBalance
      else (case settle cx ext m amount data
                   (set_policy i (p\<lparr>spentToday := spentToday p + amount\<rparr>)
                      ((resetIfNeeded (timestamp cx) i w)
                         \<lparr>status := ENTERED,
                          balances := (balances w)(i := balances w i - amount)\<rparr>)) of
              Inl e \<Rightarrow> Inl e
            | Inr w' \<Rightarrow>
                Inr (w'\<lparr>events := events w' @ [AgentPayment i m amount data],
                        status := NOT_ENTERED\<rparr>)))"
proof -
  let ?w = "w\<lparr>status := ENTERED\<rparr>"
  have p: "policy (agents (resetIfNeeded (timestamp cx) i ?w) i) = p"
    by (simp add: reset_status p_def)
  have wl: "merchantWhitelist ?w i m = merchantWhitelist w i m"
    and b: "balances ?w i = balances w i"
    by simp_all
  note checks = processPayment_checks [of cx i ?w, unfolded p wl b]
  note commit = processPayment_commit [of cx i ?w, unfolded p wl b]
  have e: "pay cx ext sender i m amount data w =
     (case processPayment cx ext i m amount data ?w of
        Inl e \<Rightarrow> Inl e
      | Inr w' \<Rightarrow> Inr (w'\<lparr>status := NOT_ENTERED\<rparr>))"
    using assms(2-6) by (rule pay_entry)
  consider (inactive) "\<not> active p"
    | (denied) "active p" "\<not> merchantWhitelist w i m"
    | (pertx) "active p" "merchantWhitelist w i m" "perTxLimit p < amount"
    | (overflow) "active p" "merchantWhitelist w i m" "\<not> perTxLimit p < amount"
        "2 ^ 256 \<le> unat (spentToday p) + unat amount"
    | (daily) "active p" "merchantWhitelist w i m" "\<not> perTxLimit p < amount"
        "unat (spentToday p) + unat amount < 2 ^ 256"
        "unat (dailyLimit p) < unat (spentToday p) + unat amount"
    | (balance) "active p" "merchantWhitelist w i m" "\<not> perTxLimit p < amount"
        "unat (spentToday p) + unat amount < 2 ^ 256"
        "unat (spentToday p) + unat amount \<le> unat (dailyLimit p)" "balances w i < amount"
    | (pass) "active p" "merchantWhitelist w i m" "\<not> perTxLimit p < amount"
        "unat (spentToday p) + unat amount < 2 ^ 256"
        "unat (spentToday p) + unat amount \<le> unat (dailyLimit p)" "\<not> balances w i < amount"
    by linarith
  then show ?thesis
  proof cases
    case inactive
    with e checks(1) show ?thesis by simp
  next
    case denied
    with e checks(2) show ?thesis by simp
  next
    case pertx
    with e checks(3) show ?thesis by simp
  next
    case overflow
    with e checks(4) show ?thesis by simp
  next
    case daily
    with e checks(5) show ?thesis by simp
  next
    case balance
    with e checks(6) show ?thesis by simp
  next
    case pass
    with e commit [of m amount ext data] show ?thesis
      by (simp add: reset_status split: sum.splits)
  qed
qed

subsection \<open>A merchant that was never whitelisted\<close>

lemma unlisted_same:
  "merchantWhitelist w' = merchantWhitelist w \<Longrightarrow> unlisted i m w' = unlisted i m w"
  by (simp add: unlisted_def)

lemma unlisted_events [simp]: "unlisted i m (w\<lparr>events := es\<rparr>) = unlisted i m w"
  by (simp add: unlisted_def)

lemma unlisted_token [simp]: "unlisted i m (w\<lparr>token := t\<rparr>) = unlisted i m w"
  by (simp add: unlisted_def)

lemma unlisted_status [simp]: "unlisted i m (w\<lparr>status := x\<rparr>) = unlisted i m w"
  by (simp add: unlisted_def)

lemma unlisted_balances [simp]: "unlisted i m (w\<lparr>balances := b\<rparr>) = unlisted i m w"
  by (simp add: unlisted_def)

lemma unlisted_subscriptions [simp]:
  "unlisted i m (w\<lparr>subscriptions := s\<rparr>) = unlisted i m w"
  by (simp add: unlisted_def)

lemma unlisted_set_policy [simp]: "unlisted i m (set_policy k q w) = unlisted i m w"
  by (simp add: unlisted_def set_policy_def)

lemma unlisted_reset [simp]: "unlisted i m (resetIfNeeded now k w) = unlisted i m w"
  by (simp add: unlisted_def)

lemma processPayment_unlisted:
  assumes ext: "\<And>a d w. unlisted i m w \<Longrightarrow> unlisted i m (snd (ext a d w))"
    and w: "unlisted i m w"
    and res: "processPayment cx ext k mrch amount data w = Inr w'"
  shows "unlisted i m w'"
proof -
  define w1 where "w1 = resetIfNeeded (timestamp cx) k w"
  define p where "p = policy (agents w1 k)"
  from res obtain sp b w2 where
    st: "settle cx ext mrch amount data
           (set_policy k (p\<lparr>spentToday := sp\<rparr>) (w1\<lparr>balances := (balances w1)(k := b)\<rparr>)) = Inr w2"
    and w': "w' = w2\<lparr>events := events w2 @ [AgentPayment k mrch amount data]\<rparr>"
    unfolding processPayment_def Let_def w1_def [symmetric] p_def [symmetric]
    by (auto split: if_splits option.splits sum.splits)
  have "unlisted i m (set_policy k (p\<lparr>spentToday := sp\<rparr>) (w1\<lparr>balances := (balances w1)(k := b)\<rparr>))"
    using w by (simp add: w1_def)
  then have "unlisted i m w2"
    using settle_preserves [where I = "unlisted i m", OF ext _ _ st] by simp
  with w' show ?thesis by simp
qed

lemma dispatch_unlisted:
  assumes ext: "\<And>a d w. unlisted i m w \<Longrightarrow> unlisted i m (snd (ext a d w))"
    and ok: "\<not> whitelists i m c"
    and w: "unlisted i m w"
    and res: "dispatch cx ext sender c w = Inr (w', v)"
  shows "unlisted i m w'"
proof (cases c)
  case (Call_createAgent a dl ptl)
  with res have "unlisted i m w' = unlisted i m w"
    by (intro unlisted_same)
       (auto simp: with_value_def createAgent_def split: if_splits option.splits sum.splits)
  with w show ?thesis by simp
next
  case (Call_setAgentAddress k a)
  with res have "unlisted i m w' = unlisted i m w"
    by (intro unlisted_same)
       (auto simp: no_value_def setAgentAddress_def agentExists_def onlyAgentOwner_def
        split: if_splits sum.splits)
  with w show ?thesis by simp
next
  case (Call_deposit k amount)
  with res have "unlisted i m w' = unlisted i m w"
    by (intro unlisted_same)
       (auto simp: no_value_def deposit_def agentExists_def onlyAgentOwner_def
        nonReentrant_def split: if_splits sum.splits option.splits prod.splits)
  with w show ?thesis by simp
next
  case (Call_withdraw k amount)
  with res have "unlisted i m w' = unlisted i m w"
    by (intro unlisted_same)
       (auto simp: no_value_def withdraw_def agentExists_def onlyAgentOwner_def
        nonReentrant_def split: if_splits sum.splits option.splits prod.splits)
  with w show ?thesis by simp
next
  case (Call_emergencyWithdraw k)
  with res have "unlisted i m w' = unlisted i m w"
    by (intro unlisted_same)
       (auto simp: no_value_def emergencyWithdraw_def agentExists_def onlyAgentOwner_def Let_def
        nonReentrant_def split: if_splits sum.splits option.splits prod.splits)
  with w show ?thesis by simp
next
  case (Call_setPolicyActive k b)
  with res have "unlisted i m w' = unlisted i m w"
    by (intro unlisted_same)
       (auto simp: no_value_def setPolicyActive_def agentExists_def onlyAgentOwner_def
        set_policy_def split: if_splits sum.splits)
  with w show ?thesis by simp
next
  case (Call_updateLimits k dl ptl)
  with res have "unlisted i m w' = unlisted i m w"
    by (intro unlisted_same)
       (auto simp: no_value_def updateLimits_def agentExists_def onlyAgentOwner_def Let_def
        set_policy_def split: if_splits sum.splits option.splits)
  with w show ?thesis by simp
next
  case (Call_setMerchantWhitelist k a b)
  with ok have n: "\<not> (k = i \<and> a = m \<and> b)" by simp
  from res Call_setMerchantWhitelist have
    "merchantWhitelist w' = (merchantWhitelist w)(k := (merchantWhitelist w k)(a := b))"
    by (auto simp: no_value_def setMerchantWhitelist_def agentExists_def onlyAgentOwner_def
        split: if_splits sum.splits)
  with w n show ?thesis
    by (auto simp: unlisted_def)
next
  case (Call_pay k a amount data)
  with res have "pay cx ext sender k a amount data w = Inr w'"
    by (auto simp: no_value_def split: sum.splits)
  then obtain w2 where p: "processPayment cx ext k a amount data (w\<lparr>status := ENTERED\<rparr>) = Inr w2"
    and w': "w' = w2\<lparr>status := NOT_ENTERED\<rparr>"
    by (rule pay_Inr)
  have e: "unlisted i m (w\<lparr>status := ENTERED\<rparr>)"
    using w by simp
  have "unlisted i m w2"
    by (rule processPayment_unlisted [OF ext e p])
  with w' show ?thesis by simp
next
  case (Call_createSubscription k a amount period first)
  with res have "unlisted i m w' = unlisted i m w"
    by (intro unlisted_same)
       (auto simp: with_value_def createSubscription_def agentExists_def onlyAgentOwner_def
        split: if_splits sum.splits option.splits)
  with w show ?thesis by simp
next
  case (Call_setSubscriptionStatus k j b)
  with res have "unlisted i m w' = unlisted i m w"
    by (intro unlisted_same)
       (auto simp: no_value_def setSubscriptionStatus_def agentExists_def onlyAgentOwner_def
        Let_def split: if_splits sum.splits)
  with w show ?thesis by simp
next
  case (Call_executeSubscription k j data)
  with res have "executeSubscription cx ext k j data w = Inr w'"
    by (auto simp: no_value_def split: sum.splits)
  then obtain t :: uint256 and w2 where
    p: "processPayment cx ext k (merchant (subscriptions w k j))
       (amountPerPeriod (subscriptions w k j)) data
       (w\<lparr>status := ENTERED,
          subscriptions := (subscriptions w)(k := (subscriptions w k)
            (j := (subscriptions w k j)\<lparr>nextExecutionAt := ucast t\<rparr>))\<rparr>) = Inr w2"
    and w': "w' = w2\<lparr>events := events w2 @
            [SubscriptionExecuted k j (amountPerPeriod (subscriptions w2 k j))],
          status := NOT_ENTERED\<rparr>"
    by (rule executeSubscription_Inr)
  have e: "unlisted i m (w\<lparr>status := ENTERED,
          subscriptions := (subscriptions w)(k := (subscriptions w k)
            (j := (subscriptions w k j)\<lparr>nextExecutionAt := ucast t\<rparr>))\<rparr>)"
    using w by simp
  have "unlisted i m w2"
    by (rule processPayment_unlisted [OF ext e p])
  with w' show ?thesis by simp
next
  case (Call_transferOwnership a)
  with res have "unlisted i m w' = unlisted i m w"
    by (intro unlisted_same)
       (auto simp: no_value_def transferOwnership_def onlyOwner_def split: if_splits sum.splits)
  with w show ?thesis by simp
qed

lemma transact_unlisted:
  assumes w: "unlisted i m w" and ok: "\<not> whitelists i m c"
    and code_ok: "\<And>a d. calls_ok (\<lambda>s c. \<not> whitelists i m c) (code a d)"
  shows "unlisted i m (fst (transact cx code sender c w))"
proof -
  have code: "unlisted i m (snd (run cx (code a d) x))" if "unlisted i m x" for a d x
  proof (rule run_preserves [where I = "unlisted i m" and ok = "\<lambda>s c. \<not> whitelists i m c"])
    fix ext sender c and x x' :: "'a world" and v
    assume "\<And>a d w. unlisted i m w \<Longrightarrow> unlisted i m (snd (ext a d w))"
      and "\<not> whitelists i m c" and "unlisted i m x" and "dispatch cx ext sender c x = Inr (x', v)"
    then show "unlisted i m x'" by (rule dispatch_unlisted)
  next
    fix x :: "'a world" and t
    assume "unlisted i m x"
    then show "unlisted i m (x\<lparr>token := t\<rparr>)" by simp
  next
    show "calls_ok (\<lambda>s c. \<not> whitelists i m c) (code a d)" by (rule code_ok)
  next
    show "unlisted i m x" by (rule that)
  qed
  show ?thesis
  proof (cases "dispatch cx (\<lambda>a d. run cx (code a d)) sender c w")
    case (Inl e)
    with w show ?thesis by (simp add: transact_def exec_def)
  next
    case (Inr r)
    obtain w' v where r: "r = (w', v)" by (cases r)
    have "unlisted i m w'"
      using dispatch_unlisted [where ext = "\<lambda>a d. run cx (code a d)", OF code ok w] Inr r
      by simp
    with Inr r show ?thesis by (simp add: transact_def exec_def)
  qed
qed

lemma run_txs_unlisted:
  "unlisted i m w \<Longrightarrow> \<forall>x \<in> set txs. never_whitelists i m x \<Longrightarrow>
     unlisted i m (run_txs tk self txs w)"
  by (induction txs arbitrary: w) (simp_all add: transact_unlisted never_whitelists_def)

lemma deploy_unlisted: "deploy creator t = Inr w \<Longrightarrow> unlisted i m w"
  by (auto simp: deploy_def unlisted_def split: if_splits)

text \<open>Default deny. Take a world reached from the deployment by a history in which nobody,
  neither a sender nor the code a call reaches, calls \<^verbatim>\<open>setMerchantWhitelist(i, m, true)\<close>.
  There a payment of agent \<open>i\<close> to \<open>m\<close> that passes the entry validation, with the policy
  active, fails with \<open>MerchantNotAllowed\<close> whatever the amount, the balance and the limits.\<close>

lemma never_whitelisted_denied:
  fixes cx :: "'t ctx" and w0 :: "'t world" and tk :: "'t IERC20" and self :: address
    and txs :: "'t tx list"
  defines "w \<equiv> run_txs tk self txs w0"
  assumes d: "deploy creator t = Inr w0"
    and n: "\<forall>x \<in> set txs. never_whitelists i m x"
    and v: "owner (agents w i) \<noteq> 0" "agent (agents w i) = sender" "status w \<noteq> ENTERED"
      "m \<noteq> 0" "amount \<noteq> 0"
    and a: "active (policy (agents (resetIfNeeded (timestamp cx) i w) i))"
  shows "pay cx ext sender i m amount data w = Inl MerchantNotAllowed"
proof -
  have "unlisted i m w"
    unfolding w_def using deploy_unlisted [OF d] n by (rule run_txs_unlisted)
  then have "\<not> merchantWhitelist w i m"
    by (simp add: unlisted_def)
  with pay_check_order [OF v, of cx ext data] a show ?thesis
    by simp
qed

subsection \<open>The daily check at the top of the 256-bit range\<close>

text \<open>The world the history with large limits reaches.\<close>

lemma world_big_fields:
  "agents world_big 1 = \<lparr>owner = alice, agent = delegate0, policy = policy_big\<rparr>"
  "status world_big = NOT_ENTERED"
  "merchantWhitelist world_big 1 shop"
  by (simp_all add: world_big_def txs_big_def token_rich_def genesis0_def transact_def exec_def
      createAgent_def setMerchantWhitelist_def deposit_def pay_def processPayment_def settle_def
      wallet_defs token_defs alice_def delegate0_def shop_def policy_big_def half_range_def
      unsigned_minus_1_eq_mask mask_eq_exp_minus_1)

text \<open>
  Claim C3. The claim gives \<open>DailyLimitExceeded\<close> as the error of the daily check, and
  the guard of the source, \<^verbatim>\<open>if (policy.spentToday + amount > policy.dailyLimit)\<close>, is
  written to give it. In the world that the history with large limits reaches, a second
  payment of \<open>2\<^sup>2\<^sup>5\<^sup>5\<close> in the same window passes the entry validation and the first
  three checks; the sum \<open>spentToday + amount\<close> is \<open>2\<^sup>2\<^sup>5\<^sup>6\<close>, above the daily limit
  \<open>2\<^sup>2\<^sup>5\<^sup>6 - 1\<close>; and the call fails with the arithmetic panic of the checked addition
  inside the guard, not with \<open>DailyLimitExceeded\<close>.
\<close>

theorem C3_daily_check_overflow:
  "owner (agents world_big 1) \<noteq> 0 \<and> agent (agents world_big 1) = delegate0
   \<and> status world_big \<noteq> ENTERED \<and> shop \<noteq> 0 \<and> half_range \<noteq> 0
   \<and> policy (agents (resetIfNeeded (timestamp cx0) 1 world_big) 1) = policy_big
   \<and> active policy_big \<and> merchantWhitelist world_big 1 shop
   \<and> \<not> perTxLimit policy_big < half_range
   \<and> unat (dailyLimit policy_big) < unat (spentToday policy_big) + unat half_range
   \<and> pay cx0 ext_ok delegate0 1 shop half_range [] world_big = Inl Panic
   \<and> pay cx0 ext_ok delegate0 1 shop half_range [] world_big \<noteq> Inl DailyLimitExceeded"
proof -
  have s: "shop \<noteq> 0"
    by (simp add: shop_def)
  show ?thesis
    using s
    by (simp add: pay_def processPayment_def wallet_defs world_big_fields Let_def
        alice_def delegate0_def cx0_def ext_ok_def
        policy_big_def half_range_def unsigned_minus_1_eq_mask mask_eq_exp_minus_1)
qed


section \<open>Settlement with a payload\<close>

lemma settle_callback:
  assumes "data \<noteq> []"
    and "allowance (usdc cx) (wallet_address cx) m (token w) = Some a"
    and "a \<noteq> 0 \<Longrightarrow> approve (usdc cx) (wallet_address cx) m 0 (token w) = Some (True, t1)"
    and "a = 0 \<Longrightarrow> t1 = token w"
    and "approve (usdc cx) (wallet_address cx) m amount t1 = Some (True, t2)"
  shows "settle cx ext m amount data w =
     (case ext m data (w\<lparr>token := t2\<rparr>) of
        (ok, w') \<Rightarrow> if ok then Inr w' else Inl (RequireFailed ''Merchant call failed''))"
  using assms by (cases "a = 0") (simp_all add: settle_def split: prod.splits)

text \<open>
  Claim C4. Take a payment with a payload that passes the checks, and a token that answers
  the allowance query with \<open>a\<close>, accepts the revocation when \<open>a\<close> is not zero (leaving
  the token in \<open>t1\<close>) and accepts the grant of the amount (leaving it in \<open>t2\<close>). Then the
  result of the payment is what the code of the merchant, called with the payload of the
  caller, makes of the world \<open>wc\<close>. In \<open>wc\<close> the balance of the agent is already debited
  and the spend already accounted, and the token is \<open>t2\<close>: the allowance query came first,
  then the revocation of a stale authorization, then the grant of exactly the amount.
\<close>

theorem C4_commit_before_callback:
  fixes w :: "'t world" and cx :: "'t ctx" and i amount :: uint256 and t2 :: 't
  defines "p \<equiv> policy (agents (resetIfNeeded (timestamp cx) i w) i)"
  defines "wc \<equiv> (set_policy i (p\<lparr>spentToday := spentToday p + amount\<rparr>)
                   ((resetIfNeeded (timestamp cx) i w)
                      \<lparr>balances := (balances w)(i := balances w i - amount)\<rparr>))
                 \<lparr>token := t2\<rparr>"
  assumes "active p" and "merchantWhitelist w i m" and "\<not> perTxLimit p < amount"
    and "unat (spentToday p) + unat amount \<le> unat (dailyLimit p)"
    and "\<not> balances w i < amount"
    and "data \<noteq> []"
    and "allowance (usdc cx) (wallet_address cx) m (token w) = Some a"
    and "a \<noteq> 0 \<Longrightarrow> approve (usdc cx) (wallet_address cx) m 0 (token w) = Some (True, t1)"
    and "a = 0 \<Longrightarrow> t1 = token w"
    and "approve (usdc cx) (wallet_address cx) m amount t1 = Some (True, t2)"
  shows "processPayment cx ext i m amount data w =
       (case ext m data wc of
          (ok, w') \<Rightarrow>
            if ok then Inr (w'\<lparr>events := events w' @ [AgentPayment i m amount data]\<rparr>)
            else Inl (RequireFailed ''Merchant call failed''))
     \<and> balances wc i = balances w i - amount
     \<and> spentToday (policy (agents wc i)) = spentToday p + amount
     \<and> token wc = t2"
proof -
  let ?w1 = "set_policy i (p\<lparr>spentToday := spentToday p + amount\<rparr>)
               ((resetIfNeeded (timestamp cx) i w)
                  \<lparr>balances := (balances w)(i := balances w i - amount)\<rparr>)"
  have tok: "token ?w1 = token w"
    by (simp add: set_policy_def)
  have "settle cx ext m amount data ?w1 =
     (case ext m data (?w1\<lparr>token := t2\<rparr>) of
        (ok, w') \<Rightarrow> if ok then Inr w' else Inl (RequireFailed ''Merchant call failed''))"
    using assms(8-12) by (intro settle_callback [where a = a and ?t1.0 = t1]) (simp_all add: tok)
  then have "processPayment cx ext i m amount data w =
       (case ext m data wc of
          (ok, w') \<Rightarrow>
            if ok then Inr (w'\<lparr>events := events w' @ [AgentPayment i m amount data]\<rparr>)
            else Inl (RequireFailed ''Merchant call failed''))"
    using processPayment_commit [of cx i w m amount ext data] assms(3-7)
    by (simp add: p_def wc_def split: prod.splits)
  moreover have "balances wc i = balances w i - amount"
    "spentToday (policy (agents wc i)) = spentToday p + amount" "token wc = t2"
    by (simp_all add: wc_def set_policy_def)
  ultimately show ?thesis by simp
qed

text \<open>At the concrete deployment with the token of the test suite, a stale authorization of
  7 and the merchant that looks at the world: the payment of 200000 with payload \<open>[1]\<close>
  succeeds, so the merchant saw the debit, the spend and an authorization of exactly 200000.\<close>

theorem C4_commit_before_callback_witness:
  "\<not> isl (processPayment cx0 ext_probe 1 shop 200000 [1] world_stale)
   \<and> fst (ext_probe shop [1]
       ((set_policy 1
          ((policy (agents (resetIfNeeded (timestamp cx0) 1 world_stale) 1))
             \<lparr>spentToday :=
                spentToday (policy (agents (resetIfNeeded (timestamp cx0) 1 world_stale) 1))
                  + 200000\<rparr>)
          ((resetIfNeeded (timestamp cx0) 1 world_stale)
             \<lparr>balances := (balances world_stale)(1 := balances world_stale 1 - 200000)\<rparr>))
        \<lparr>token := \<lparr>tokBalances = (\<lambda>_. 0)(99 := 1000000),
                    tokAllowances = (\<lambda>_ _. 0)(99 := (\<lambda>_. 0)(shop := 200000))\<rparr>\<rparr>))"
proof -
  let ?p = "policy (agents (resetIfNeeded (timestamp cx0) 1 world_stale) 1)"
  let ?t1 = "\<lparr>tokBalances = (\<lambda>_. 0)(99 := 1000000),
               tokAllowances = (\<lambda>_ _. 0)(99 := (\<lambda>_. 0)(shop := 0))\<rparr>"
  let ?t2 = "\<lparr>tokBalances = (\<lambda>_. 0)(99 := 1000000),
               tokAllowances = (\<lambda>_ _. 0)(99 := (\<lambda>_. 0)(shop := 200000))\<rparr>"
  have p: "?p = policy0\<lparr>spentToday := 0, lastReset := 100000\<rparr>"
    by (simp add: reset_policy reset_due_def one_day_def world_stale_def example_defs)
  have h: "active ?p" "merchantWhitelist world_stale 1 shop" "\<not> perTxLimit ?p < 200000"
    "unat (spentToday ?p) + unat (200000 :: uint256) \<le> unat (dailyLimit ?p)"
    "\<not> balances world_stale 1 < 200000" "[1 :: 8 word] \<noteq> []"
    unfolding p by (simp_all add: world_stale_def example_defs)
  have t: "allowance (usdc cx0) (wallet_address cx0) shop (token world_stale) = Some 7"
    "(7 :: uint256) \<noteq> 0 \<Longrightarrow>
       approve (usdc cx0) (wallet_address cx0) shop 0 (token world_stale) = Some (True, ?t1)"
    "(7 :: uint256) = 0 \<Longrightarrow> ?t1 = token world_stale"
    "approve (usdc cx0) (wallet_address cx0) shop 200000 ?t1 = Some (True, ?t2)"
    by (simp_all add: world_stale_def example_defs token_defs)
  note th = C4_commit_before_callback [OF h t, of ext_probe]
  have probe: "fst (ext_probe shop [1]
       ((set_policy 1 (?p\<lparr>spentToday := spentToday ?p + 200000\<rparr>)
          ((resetIfNeeded (timestamp cx0) 1 world_stale)
             \<lparr>balances := (balances world_stale)(1 := balances world_stale 1 - 200000)\<rparr>))
        \<lparr>token := ?t2\<rparr>))"
    unfolding p
    by (simp add: ext_probe_def set_policy_def world_stale_def example_defs)
  with th [THEN conjunct1] have "\<not> isl (processPayment cx0 ext_probe 1 shop 200000 [1] world_stale)"
    by (simp split: prod.splits)
  with probe show ?thesis by simp
qed


section \<open>The reentrancy latch\<close>

lemma settle_cong:
  assumes "\<And>m d w. status w = ENTERED \<Longrightarrow> ext m d w = ext' m d w" and "status w = ENTERED"
  shows "settle cx ext m amount data w = settle cx ext' m amount data w"
  using assms by (simp add: settle_def split: option.splits sum.splits prod.splits)

lemma processPayment_cong:
  assumes "\<And>m d w. status w = ENTERED \<Longrightarrow> ext m d w = ext' m d w" and "status w = ENTERED"
  shows "processPayment cx ext i m amount data w = processPayment cx ext' i m amount data w"
proof -
  have "settle cx ext m amount data
          (set_policy i q ((resetIfNeeded (timestamp cx) i w)\<lparr>balances := b\<rparr>))
      = settle cx ext' m amount data
          (set_policy i q ((resetIfNeeded (timestamp cx) i w)\<lparr>balances := b\<rparr>))" for q b
    using assms by (intro settle_cong) (simp_all add: set_policy_def)
  then show ?thesis
    by (simp add: processPayment_def Let_def split: option.splits)
qed

lemma dispatch_cong:
  assumes "\<And>m d w. status w = ENTERED \<Longrightarrow> ext m d w = ext' m d w"
  shows "dispatch cx ext sender c w = dispatch cx ext' sender c w"
proof (cases c)
  case (Call_pay i m amount data)
  have "processPayment cx ext i m amount data (w\<lparr>status := ENTERED\<rparr>)
      = processPayment cx ext' i m amount data (w\<lparr>status := ENTERED\<rparr>)"
    using assms by (intro processPayment_cong) simp_all
  with Call_pay show ?thesis
    by (simp add: pay_def agentExists_def onlyAgent_def nonReentrant_def)
next
  case (Call_executeSubscription i j data)
  have "processPayment cx ext i m amount data (w\<lparr>status := ENTERED, subscriptions := s\<rparr>)
      = processPayment cx ext' i m amount data (w\<lparr>status := ENTERED, subscriptions := s\<rparr>)"
    for m amount s
    using assms by (intro processPayment_cong) simp_all
  with Call_executeSubscription show ?thesis
    by (simp add: executeSubscription_def agentExists_def nonReentrant_def Let_def
        split: option.splits)
qed simp_all

lemma guarded_latched:
  assumes "guarded c" and "status w = ENTERED"
  shows "dispatch cx ext sender c w =
     Inl (case access_error sender c w of Some e \<Rightarrow> e | None \<Rightarrow> ReentrantCall)"
  using assms
  by (cases c)
     (simp_all add: deposit_def withdraw_def emergencyWithdraw_def pay_def
        executeSubscription_def agentExists_def onlyAgentOwner_def onlyAgent_def
        nonReentrant_def no_value_def ReentrantCall_def)

lemma nonReentrant_status:
  "nonReentrant body w = Inr w' \<Longrightarrow> status w' = NOT_ENTERED"
  by (auto simp: nonReentrant_def split: if_splits sum.splits)

lemma guarded_exit:
  assumes "guarded c" and "dispatch cx ext sender c w = Inr (w', v)"
  shows "status w' = NOT_ENTERED"
  using assms
  by (cases c)
     (auto simp: deposit_def withdraw_def emergencyWithdraw_def pay_def
        executeSubscription_def agentExists_def onlyAgentOwner_def onlyAgent_def
        no_value_def split: if_splits sum.splits dest: nonReentrant_status)

lemma unguarded_status:
  assumes "\<not> guarded c" and "dispatch cx ext sender c w = Inr (w', v)"
  shows "status w' = status w"
  using assms
  by (cases c)
     (auto simp: createAgent_def setAgentAddress_def setPolicyActive_def updateLimits_def
        setMerchantWhitelist_def createSubscription_def setSubscriptionStatus_def
        transferOwnership_def agentExists_def onlyAgentOwner_def onlyOwner_def
        resetIfNeeded_def set_policy_def Let_def no_value_def with_value_def
        split: if_splits sum.splits option.splits)

lemma run_latched:
  assumes "status w = ENTERED"
  shows "status (snd (run cx code w)) = ENTERED"
proof (rule run_preserves [where I = "\<lambda>w. status w = ENTERED" and ok = "\<lambda>s c. True"])
  fix ext sender c and w w' :: "'a world" and v
  assume l: "status w = ENTERED" and r: "dispatch cx ext sender c w = Inr (w', v)"
  show "status w' = ENTERED"
  proof (cases "guarded c")
    case True
    from guarded_latched [OF True l, of cx ext sender] r show ?thesis by simp
  next
    case False
    from unguarded_status [OF False r] l show ?thesis by simp
  qed
next
  fix w :: "'a world" and t
  assume "status w = ENTERED"
  then show "status (w\<lparr>token := t\<rparr>) = ENTERED" by simp
next
  show "calls_ok (\<lambda>s c. True) code" by (rule calls_ok_True)
next
  show "status w = ENTERED" by (rule assms)
qed


text \<open>
  Claim C5, amended. One latch guards \<^verbatim>\<open>deposit\<close>, \<^verbatim>\<open>withdraw\<close>,
  \<^verbatim>\<open>emergencyWithdraw\<close>, \<^verbatim>\<open>pay\<close> and \<^verbatim>\<open>executeSubscription\<close>. For each of them:
  \<^item> while the latch is set the call fails and changes nothing; the error is that of the
    existence or authorization modifier when one of them fails, since they stand before
    the latch, and \<open>ReentrantCall\<close> otherwise;
  \<^item> entry sets the latch: the result depends on the code outside only through what that
    code does in worlds with the latch set;
  \<^item> exit clears the latch: from a world with the latch free, the world after the call
    has the latch free, whether the call succeeded or failed;
  \<^item> while code outside runs in a world with the latch set, whatever it calls, the latch
    stays set.
\<close>

theorem C5_reentrancy_latch:
  assumes "guarded c"
  shows "(status w = ENTERED \<longrightarrow>
            exec cx ext sender c w =
              (w, Inl (case access_error sender c w of Some e \<Rightarrow> e | None \<Rightarrow> ReentrantCall)))
    \<and> ((\<forall>m d w'. status w' = ENTERED \<longrightarrow> ext m d w' = ext' m d w') \<longrightarrow>
            exec cx ext sender c w = exec cx ext' sender c w)
    \<and> (status w = NOT_ENTERED \<longrightarrow> status (fst (exec cx ext sender c w)) = NOT_ENTERED)
    \<and> (status w = ENTERED \<longrightarrow> status (snd (run cx code w)) = ENTERED)"
proof (intro conjI impI)
  assume "status w = ENTERED"
  then show "exec cx ext sender c w =
      (w, Inl (case access_error sender c w of Some e \<Rightarrow> e | None \<Rightarrow> ReentrantCall))"
    using guarded_latched [OF assms, of w cx ext sender] by (simp add: exec_def)
next
  assume "\<forall>m d w'. status w' = ENTERED \<longrightarrow> ext m d w' = ext' m d w'"
  then have "dispatch cx ext sender c w = dispatch cx ext' sender c w"
    by (intro dispatch_cong) simp
  then show "exec cx ext sender c w = exec cx ext' sender c w"
    by (simp add: exec_def)
next
  assume "status w = NOT_ENTERED"
  then show "status (fst (exec cx ext sender c w)) = NOT_ENTERED"
    using guarded_exit [OF assms, of cx ext sender w]
    by (auto simp: exec_def split: sum.splits)
next
  assume "status w = ENTERED"
  then show "status (snd (run cx code w)) = ENTERED"
    by (rule run_latched)
qed

text \<open>At the concrete deployment: with the latch set, a payment by the delegate fails with
  \<open>ReentrantCall\<close>; a merchant whose code succeeds only outside the latch makes the payment
  fail exactly as a merchant whose code always fails; after a payment that succeeds the
  latch is free; and the code that calls back leaves the latch set.\<close>

theorem C5_reentrancy_latch_witness:
  "guarded (Call_pay 1 shop 200000 [1])
   \<and> status (world0\<lparr>status := ENTERED\<rparr>) = ENTERED
   \<and> exec cx0 ext_ok delegate0 (Call_pay 1 shop 200000 [1]) (world0\<lparr>status := ENTERED\<rparr>)
       = (world0\<lparr>status := ENTERED\<rparr>, Inl ReentrantCall)
   \<and> ext_unlatched shop [1] (world0\<lparr>status := ENTERED\<rparr>)
       = ext_fail shop [1] (world0\<lparr>status := ENTERED\<rparr>)
   \<and> ext_unlatched shop [1] world0 \<noteq> ext_fail shop [1] world0
   \<and> exec cx0 ext_unlatched delegate0 (Call_pay 1 shop 200000 [1]) world0
       = exec cx0 ext_fail delegate0 (Call_pay 1 shop 200000 [1]) world0
   \<and> status world0 = NOT_ENTERED
   \<and> status (fst (exec cx0 ext_ok delegate0 (Call_pay 1 shop 200000 [1]) world0)) = NOT_ENTERED
   \<and> status (snd (run cx0 (code_reenter shop [1]) (world0\<lparr>status := ENTERED\<rparr>))) = ENTERED"
proof -
  have g: "guarded (Call_pay 1 shop 200000 [1])"
    by simp
  have l: "status (world0\<lparr>status := ENTERED\<rparr>) = ENTERED"
    by simp
  have a: "access_error delegate0 (Call_pay 1 shop 200000 [1]) (world0\<lparr>status := ENTERED\<rparr>) = None"
    by (simp add: example_defs)
  have e: "\<forall>m d w'. status w' = ENTERED \<longrightarrow> ext_unlatched m d w' = ext_fail m d w'"
    by (simp add: ext_unlatched_def ext_fail_def)
  have n: "status world0 = NOT_ENTERED"
    by (simp add: world0_def)
  note th1 = C5_reentrancy_latch [OF g, of "world0\<lparr>status := ENTERED\<rparr>" cx0 ext_ok delegate0
      ext_ok "code_reenter shop [1]"]
  note th2 = C5_reentrancy_latch [OF g, of world0 cx0 ext_unlatched delegate0
      ext_fail "code_reenter shop [1]"]
  note th3 = C5_reentrancy_latch [OF g, of world0 cx0 ext_ok delegate0
      ext_ok "code_reenter shop [1]"]
  from th1 l a have c1:
    "exec cx0 ext_ok delegate0 (Call_pay 1 shop 200000 [1]) (world0\<lparr>status := ENTERED\<rparr>)
       = (world0\<lparr>status := ENTERED\<rparr>, Inl ReentrantCall)"
    by simp
  from th1 l have c4:
    "status (snd (run cx0 (code_reenter shop [1]) (world0\<lparr>status := ENTERED\<rparr>))) = ENTERED"
    by blast
  from th2 e have c2:
    "exec cx0 ext_unlatched delegate0 (Call_pay 1 shop 200000 [1]) world0
       = exec cx0 ext_fail delegate0 (Call_pay 1 shop 200000 [1]) world0"
    by blast
  from th3 n have c3:
    "status (fst (exec cx0 ext_ok delegate0 (Call_pay 1 shop 200000 [1]) world0)) = NOT_ENTERED"
    by blast
  have e1: "ext_unlatched shop [1] (world0\<lparr>status := ENTERED\<rparr>)
       = ext_fail shop [1] (world0\<lparr>status := ENTERED\<rparr>)"
    and e2: "ext_unlatched shop [1] world0 \<noteq> ext_fail shop [1] world0"
    by (simp_all add: ext_unlatched_def ext_fail_def world0_def NOT_ENTERED_def ENTERED_def)
  from g l c1 e1 e2 c2 n c3 c4 show ?thesis
    by blast
qed

text \<open>
  The claim as written fails for a nested attempt by a caller the modifiers before the latch
  reject. At the concrete deployment the delegate pays the merchant with a payload; the code
  of the merchant calls \<^verbatim>\<open>pay\<close> again while the latch is set and succeeds only when that
  nested call fails with \<open>NotAgent\<close>. The payment succeeds: the nested attempt failed with
  \<open>NotAgent\<close>, which is not \<open>ReentrantCall\<close>.
\<close>

theorem C5_nested_attempt_counterexample:
  "guarded (Call_pay 1 shop 1 [])
   \<and> exec cx0 ext_ok shop (Call_pay 1 shop 1 []) (world0\<lparr>status := ENTERED\<rparr>)
        = (world0\<lparr>status := ENTERED\<rparr>, Inl NotAgent)
   \<and> NotAgent \<noteq> ReentrantCall
   \<and> snd (transact cx0 code_reenter delegate0 (Call_pay 1 shop 200000 [1]) world0) = Inr None"
  by (simp add: transact_def exec_def pay_def processPayment_def settle_def wallet_defs
      token_defs example_defs code_reenter_def ReentrantCall_def Let_def)


section \<open>Tightening the limits\<close>

text \<open>
  Claim C7. \<^verbatim>\<open>updateLimits\<close> fails with \<open>AgentNotFound\<close> for an identifier without an
  owner and with \<open>NotAgentOwner\<close> for a caller who is not the owner; for the owner it
  fails with \<open>InvalidLimits\<close> when a new limit is zero or the new limit per transaction
  is above the new daily limit, as in the creation. Otherwise it succeeds: the policy it
  leaves is the policy after the window reset (applied when due), with the new limits, and
  with \<open>spentToday\<close> lowered to the new daily limit when it was above it; \<open>spentToday\<close> is
  never above its value before the call.
\<close>

theorem C7_updateLimits:
  fixes w :: "'t world" and cx :: "'t ctx" and i :: uint256
  defines "q \<equiv> (if reset_due (timestamp cx) (policy (agents w i))
                 then (policy (agents w i))\<lparr>spentToday := 0, lastReset := ucast (timestamp cx)\<rparr>
                 else policy (agents w i))"
  shows "(owner (agents w i) = 0 \<longrightarrow> updateLimits cx sender i nd np w = Inl AgentNotFound)
    \<and> (owner (agents w i) \<noteq> 0 \<and> owner (agents w i) \<noteq> sender \<longrightarrow>
          updateLimits cx sender i nd np w = Inl NotAgentOwner)
    \<and> (owner (agents w i) \<noteq> 0 \<and> owner (agents w i) = sender
          \<and> (nd = 0 \<or> np = 0 \<or> nd < np) \<longrightarrow>
          updateLimits cx sender i nd np w = Inl InvalidLimits)
    \<and> (owner (agents w i) \<noteq> 0 \<and> owner (agents w i) = sender
          \<and> nd \<noteq> 0 \<and> np \<noteq> 0 \<and> np \<le> nd \<longrightarrow>
          (\<exists>w'. updateLimits cx sender i nd np w = Inr w'
             \<and> policy (agents w' i) =
                 q\<lparr>dailyLimit := nd, perTxLimit := np,
                   spentToday := (if nd < spentToday q then nd else spentToday q)\<rparr>
             \<and> spentToday (policy (agents w' i)) \<le> spentToday (policy (agents w i))
             \<and> spentToday (policy (agents w' i)) \<le> nd))"
proof (intro conjI impI)
  assume "owner (agents w i) = 0"
  then show "updateLimits cx sender i nd np w = Inl AgentNotFound"
    by (simp add: updateLimits_def agentExists_def)
next
  assume "owner (agents w i) \<noteq> 0 \<and> owner (agents w i) \<noteq> sender"
  then show "updateLimits cx sender i nd np w = Inl NotAgentOwner"
    by (simp add: updateLimits_def agentExists_def onlyAgentOwner_def)
next
  assume "owner (agents w i) \<noteq> 0 \<and> owner (agents w i) = sender \<and> (nd = 0 \<or> np = 0 \<or> nd < np)"
  then show "updateLimits cx sender i nd np w = Inl InvalidLimits"
    by (auto simp: updateLimits_def agentExists_def onlyAgentOwner_def validateLimits_def)
next
  assume a: "owner (agents w i) \<noteq> 0 \<and> owner (agents w i) = sender
     \<and> nd \<noteq> 0 \<and> np \<noteq> 0 \<and> np \<le> nd"
  then have v: "validateLimits nd np = None"
    by (simp add: validateLimits_def leD)
  have q: "policy (agents (resetIfNeeded (timestamp cx) i w) i) = q"
    by (simp add: reset_policy q_def)
  let ?p = "q\<lparr>dailyLimit := nd, perTxLimit := np,
               spentToday := (if nd < spentToday q then nd else spentToday q)\<rparr>"
  let ?w = "(set_policy i ?p (resetIfNeeded (timestamp cx) i w))
              \<lparr>events := events (resetIfNeeded (timestamp cx) i w)
                 @ [PolicyLimitsUpdated i nd np]\<rparr>"
  have r: "updateLimits cx sender i nd np w = Inr ?w"
    using a v by (auto simp: updateLimits_def agentExists_def onlyAgentOwner_def Let_def q)
  have p: "policy (agents ?w i) = ?p"
    by (simp add: set_policy_def)
  have "spentToday q \<le> spentToday (policy (agents w i))"
    by (simp add: q_def)
  then have "spentToday ?p \<le> spentToday (policy (agents w i))" "spentToday ?p \<le> nd"
    by auto
  with r p show "\<exists>w'. updateLimits cx sender i nd np w = Inr w'
             \<and> policy (agents w' i) = ?p
             \<and> spentToday (policy (agents w' i)) \<le> spentToday (policy (agents w i))
             \<and> spentToday (policy (agents w' i)) \<le> nd"
    by (intro exI [of _ ?w]) simp
qed

text \<open>At the concrete deployment, inside the first window, the owner lowers the daily limit
  of agent 1 to 3 while 5 are spent: the call succeeds and \<open>spentToday\<close> becomes 3; a
  call by the delegate fails with \<open>NotAgentOwner\<close>, and limits \<open>(2, 3)\<close> are refused.\<close>

theorem C7_updateLimits_witness:
  "owner (agents world0 1) \<noteq> 0 \<and> owner (agents world0 1) = alice
   \<and> owner (agents world0 1) \<noteq> delegate0
   \<and> owner (agents world0 7) = 0
   \<and> updateLimits cx_early alice 7 3 2 world0 = Inl AgentNotFound
   \<and> updateLimits cx_early delegate0 1 3 2 world0 = Inl NotAgentOwner
   \<and> updateLimits cx_early alice 1 2 3 world0 = Inl InvalidLimits
   \<and> (\<exists>w'. updateLimits cx_early alice 1 3 2 world0 = Inr w'
         \<and> spentToday (policy (agents w' 1)) = 3
         \<and> spentToday (policy (agents world0 1)) = 5)"
proof -
  have o: "owner (agents world0 1) \<noteq> 0" "owner (agents world0 1) = alice"
    "owner (agents world0 1) \<noteq> delegate0" "owner (agents world0 7) = 0"
    by (simp_all add: example_defs zeroAgent_def)
  have n: "\<not> reset_due (timestamp cx_early) (policy (agents world0 1))"
    by (simp add: reset_due_def one_day_def cx_early_def example_defs)
  have s: "spentToday (policy (agents world0 1)) = 5"
    by (simp add: example_defs)
  note th1 = C7_updateLimits [of world0 7 cx_early alice 3 2]
  note th2 = C7_updateLimits [of world0 1 cx_early delegate0 3 2]
  note th3 = C7_updateLimits [of world0 1 cx_early alice 2 3]
  note th4 = C7_updateLimits [of world0 1 cx_early alice 3 2]
  have c1: "updateLimits cx_early alice 7 3 2 world0 = Inl AgentNotFound"
    using th1 o by blast
  have c2: "updateLimits cx_early delegate0 1 3 2 world0 = Inl NotAgentOwner"
    using th2 o by blast
  have "(2 :: uint256) < 3" by simp
  then have c3: "updateLimits cx_early alice 1 2 3 world0 = Inl InvalidLimits"
    using th3 o by blast
  have "(3 :: uint256) \<noteq> 0 \<and> (2 :: uint256) \<noteq> 0 \<and> (2 :: uint256) \<le> 3" by simp
  with th4 o n s have c4: "\<exists>w'. updateLimits cx_early alice 1 3 2 world0 = Inr w'
         \<and> spentToday (policy (agents w' 1)) = 3"
    by auto
  from o c1 c2 c3 c4 s show ?thesis by blast
qed


section \<open>The emergency withdrawal\<close>

lemma usdc_move_balances:
  assumes "from \<noteq> to" and "amount \<le> tokBalances t from"
    and "unat (tokBalances t to) + unat amount < 2 ^ 256"
  shows "usdc_move from to amount t =
     Some (t\<lparr>tokBalances := (tokBalances t)(from := tokBalances t from - amount,
                                              to := tokBalances t to + amount)\<rparr>)"
  using assms by (simp add: usdc_move_def checked_add_def checked_sub_def leD Let_def)

text \<open>With any token: when the token accepts the transfer of the whole balance to the
  owner, the call succeeds and leaves the agent with balance 0.\<close>

lemma emergencyWithdraw_drains:
  assumes "owner (agents w i) \<noteq> 0" and "owner (agents w i) = sender" and "status w \<noteq> ENTERED"
    and "transfer (usdc cx) (wallet_address cx) sender (balances w i) (token w) = Some (True, t')"
  shows "emergencyWithdraw cx sender i w =
     Inr (w\<lparr>status := NOT_ENTERED, token := t', balances := (balances w)(i := 0),
            events := events w @ [EmergencyWithdraw i (balances w i)]\<rparr>)"
  using assms
  by (auto simp: emergencyWithdraw_def agentExists_def onlyAgentOwner_def nonReentrant_def
      Let_def)

lemma usdc_move_Some:
  assumes "usdc_move from to amount t = Some t'" and "from \<noteq> to"
  shows "amount \<le> tokBalances t from \<and> unat (tokBalances t to) + unat amount < 2 ^ 256
     \<and> unat (tokBalances t' to) = unat (tokBalances t to) + unat amount"
  using assms
  by (auto simp: usdc_move_def checked_add_def checked_sub_def Let_def
      unat_add_lem [THEN iffD1] split: if_splits)

text \<open>
  Claim C9. \<^verbatim>\<open>emergencyWithdraw\<close> is for the owner only, and no check of the policy, the
  whitelist or the limits stands in it. Over the token of the test suite: after a call that
  commits, the balance of the agent is 0, the token balance of the caller (the owner, who is
  not the wallet itself) is larger by exactly the balance the agent had, and the agent
  records are as before; and the call of the owner, with the latch free, does commit when
  the wallet holds the balance of the agent in tokens and the sum with the tokens of the
  owner fits in 256 bits.
\<close>

theorem C9_emergencyWithdraw:
  fixes w :: "TestUSDC world"
  assumes "owner (agents w i) \<noteq> 0"
  shows "(owner (agents w i) \<noteq> sender \<longrightarrow> emergencyWithdraw cx sender i w = Inl NotAgentOwner)
    \<and> (emergencyWithdraw cx sender i w = Inr w' \<and> usdc cx = testUSDC
          \<and> sender \<noteq> wallet_address cx \<longrightarrow>
          owner (agents w i) = sender
          \<and> balances w' i = 0
          \<and> unat (tokBalances (token w') sender)
              = unat (tokBalances (token w) sender) + unat (balances w i)
          \<and> agents w' = agents w)
    \<and> (owner (agents w i) = sender \<and> status w \<noteq> ENTERED \<and> usdc cx = testUSDC
          \<and> sender \<noteq> wallet_address cx
          \<and> balances w i \<le> tokBalances (token w) (wallet_address cx)
          \<and> unat (tokBalances (token w) sender) + unat (balances w i) < 2 ^ 256 \<longrightarrow>
          (\<exists>w''. emergencyWithdraw cx sender i w = Inr w''))"
proof (intro conjI impI)
  assume "owner (agents w i) \<noteq> sender"
  with assms show "emergencyWithdraw cx sender i w = Inl NotAgentOwner"
    by (simp add: emergencyWithdraw_def agentExists_def onlyAgentOwner_def)
next
  assume a: "emergencyWithdraw cx sender i w = Inr w' \<and> usdc cx = testUSDC
     \<and> sender \<noteq> wallet_address cx"
  then obtain t' where o: "owner (agents w i) = sender"
    and m: "usdc_move (wallet_address cx) sender (balances w i) (token w) = Some t'"
    and w': "w' = w\<lparr>status := NOT_ENTERED, token := t', balances := (balances w)(i := 0),
               events := events w @ [EmergencyWithdraw i (balances w i)]\<rparr>"
    by (auto simp: emergencyWithdraw_def agentExists_def onlyAgentOwner_def nonReentrant_def
        Let_def testUSDC_def usdc_transfer_def split: if_splits option.splits)
  from usdc_move_Some [OF m] a
  have "unat (tokBalances t' sender)
      = unat (tokBalances (token w) sender) + unat (balances w i)"
    by auto
  with w' show "balances w' i = 0"
    and "unat (tokBalances (token w') sender)
              = unat (tokBalances (token w) sender) + unat (balances w i)"
    and "agents w' = agents w"
    by simp_all
  from o show "owner (agents w i) = sender" .
next
  assume a: "owner (agents w i) = sender \<and> status w \<noteq> ENTERED \<and> usdc cx = testUSDC
     \<and> sender \<noteq> wallet_address cx
     \<and> balances w i \<le> tokBalances (token w) (wallet_address cx)
     \<and> unat (tokBalances (token w) sender) + unat (balances w i) < 2 ^ 256"
  let ?t = "(token w)\<lparr>tokBalances := (tokBalances (token w))
       (wallet_address cx := tokBalances (token w) (wallet_address cx) - balances w i,
        sender := tokBalances (token w) sender + balances w i)\<rparr>"
  have "usdc_move (wallet_address cx) sender (balances w i) (token w) = Some ?t"
    using a by (intro usdc_move_balances) auto
  with a have "transfer (usdc cx) (wallet_address cx) sender (balances w i) (token w)
      = Some (True, ?t)"
    by (simp add: testUSDC_def usdc_transfer_def)
  with assms a have "emergencyWithdraw cx sender i w =
     Inr (w\<lparr>status := NOT_ENTERED, token := ?t, balances := (balances w)(i := 0),
            events := events w @ [EmergencyWithdraw i (balances w i)]\<rparr>)"
    by (intro emergencyWithdraw_drains) auto
  then show "\<exists>w''. emergencyWithdraw cx sender i w = Inr w''"
    by (rule exI)
qed

text \<open>At the concrete deployment with the policy of agent 1 paused, funded with 1000000:
  a call by the delegate fails; the call by the owner succeeds, leaves the agent with
  balance 0 and the owner with 1000000 tokens more.\<close>

theorem C9_emergencyWithdraw_witness:
  "owner (agents world_paused 1) \<noteq> 0 \<and> owner (agents world_paused 1) \<noteq> delegate0
   \<and> \<not> active (policy (agents world_paused 1))
   \<and> emergencyWithdraw cx0 delegate0 1 world_paused = Inl NotAgentOwner
   \<and> owner (agents world_paused 1) = alice \<and> status world_paused \<noteq> ENTERED
   \<and> balances world_paused 1 = 1000000
   \<and> (\<exists>w'. emergencyWithdraw cx0 alice 1 world_paused = Inr w' \<and> balances w' 1 = 0
         \<and> unat (tokBalances (token w') alice)
             = unat (tokBalances (token world_paused) alice) + 1000000)"
proof -
  have o: "owner (agents world_paused 1) \<noteq> 0" "owner (agents world_paused 1) \<noteq> delegate0"
    "\<not> active (policy (agents world_paused 1))"
    "owner (agents world_paused 1) = alice" "status world_paused \<noteq> ENTERED"
    "balances world_paused 1 = 1000000"
    by (simp_all add: world_paused_def example_defs NOT_ENTERED_def ENTERED_def)
  have x: "usdc cx0 = testUSDC" "alice \<noteq> wallet_address cx0"
    "balances world_paused 1 \<le> tokBalances (token world_paused) (wallet_address cx0)"
    "unat (tokBalances (token world_paused) alice) + unat (balances world_paused 1) < 2 ^ 256"
    by (simp_all add: world_paused_def example_defs)
  note th = C9_emergencyWithdraw [OF o(1), where cx = cx0]
  have c1: "emergencyWithdraw cx0 delegate0 1 world_paused = Inl NotAgentOwner"
    using th [of delegate0] o(2) by blast
  from th [of alice, THEN conjunct2, THEN conjunct2] o x
  obtain w' where r: "emergencyWithdraw cx0 alice 1 world_paused = Inr w'"
    by blast
  from th [of alice w', THEN conjunct2, THEN conjunct1] r x
  have "balances w' 1 = 0 \<and> unat (tokBalances (token w') alice)
             = unat (tokBalances (token world_paused) alice) + unat (balances world_paused 1)"
    by blast
  with r o(6) have "\<exists>w'. emergencyWithdraw cx0 alice 1 world_paused = Inr w' \<and> balances w' 1 = 0
         \<and> unat (tokBalances (token w') alice)
             = unat (tokBalances (token world_paused) alice) + 1000000"
    by simp
  with o c1 show ?thesis by blast
qed


section \<open>Subscriptions\<close>

lemma processPayment_subscriptions:
  assumes ext: "\<And>m d w. subscriptions (snd (ext m d w)) = subscriptions w"
    and res: "processPayment cx ext i m amount data w = Inr w'"
  shows "subscriptions w' = subscriptions w"
proof -
  define w1 where "w1 = resetIfNeeded (timestamp cx) i w"
  define p where "p = policy (agents w1 i)"
  from res obtain sp b w2 where
    st: "settle cx ext m amount data
           (set_policy i (p\<lparr>spentToday := sp\<rparr>) (w1\<lparr>balances := (balances w1)(i := b)\<rparr>)) = Inr w2"
    and w': "w' = w2\<lparr>events := events w2 @ [AgentPayment i m amount data]\<rparr>"
    unfolding processPayment_def Let_def w1_def [symmetric] p_def [symmetric]
    by (auto split: if_splits option.splits sum.splits)
  have "subscriptions w2 = subscriptions w"
  proof (rule settle_preserves [where I = "\<lambda>x. subscriptions x = subscriptions w", OF _ _ _ st])
    show "subscriptions (snd (ext m d x)) = subscriptions w" if "subscriptions x = subscriptions w"
      for m d x
      using that ext by simp
    show "subscriptions (x\<lparr>token := t\<rparr>) = subscriptions w" if "subscriptions x = subscriptions w"
      for x :: "'a world" and t
      using that by simp
    show "subscriptions (set_policy i (p\<lparr>spentToday := sp\<rparr>)
        (w1\<lparr>balances := (balances w1)(i := b)\<rparr>)) = subscriptions w"
      by (simp add: set_policy_def w1_def)
  qed
  with w' show ?thesis by simp
qed

lemma unat_period: "unat (ucast (x :: uint64) :: uint256) = unat x"
proof -
  have "unat x < 2 ^ 64"
    using unsigned_less [of x] by simp
  then have "unat x < 2 ^ 256"
    by simp
  then show ?thesis
    by (simp add: unsigned_ucast_eq take_bit_nat_eq_self)
qed

text \<open>
  Claim C8, amended. \<^verbatim>\<open>executeSubscription\<close> does not look at its caller. For an agent
  that exists, with the latch free, it fails when the subscription is inactive, when it was
  never created, and when the block time is before \<open>nextExecutionAt\<close>. On an eligible call
  it sets \<open>nextExecutionAt\<close> to the block time plus \<open>periodSeconds\<close>, cut to 64 bits
  (not to the former \<open>nextExecutionAt\<close> plus \<open>periodSeconds\<close>), and then runs the payment
  pipeline in that world with the merchant and the amount of the subscription. When the
  call succeeds and the code outside left the subscriptions alone, the subscription differs
  from before in \<open>nextExecutionAt\<close> only.
\<close>

theorem C8_executeSubscription:
  fixes w :: "'t world" and cx :: "'t ctx" and i j :: uint256
  defines "sub \<equiv> subscriptions w i j"
  defines "nxt \<equiv> (ucast (timestamp cx + ucast (periodSeconds (subscriptions w i j))) :: uint64)"
  assumes "owner (agents w i) \<noteq> 0" and "status w \<noteq> ENTERED"
  shows "dispatch cx ext s1 (Call_executeSubscription i j data) w
           = dispatch cx ext s2 (Call_executeSubscription i j data) w
    \<and> (\<not> subActive sub \<longrightarrow>
          executeSubscription cx ext i j data w = Inl (RequireFailed ''Subscription inactive''))
    \<and> (subActive sub \<and> merchant sub = 0 \<longrightarrow>
          executeSubscription cx ext i j data w = Inl (RequireFailed ''Subscription not found''))
    \<and> (subActive sub \<and> merchant sub \<noteq> 0 \<and> timestamp cx < ucast (nextExecutionAt sub) \<longrightarrow>
          executeSubscription cx ext i j data w = Inl (RequireFailed ''Too early''))
    \<and> (subActive sub \<and> merchant sub \<noteq> 0 \<and> \<not> timestamp cx < ucast (nextExecutionAt sub)
          \<and> unat (timestamp cx) + unat (periodSeconds sub) < 2 ^ 256 \<longrightarrow>
          executeSubscription cx ext i j data w =
            (case processPayment cx ext i (merchant sub) (amountPerPeriod sub) data
                    (w\<lparr>status := ENTERED,
                       subscriptions := (subscriptions w)(i := (subscriptions w i)
                         (j := sub\<lparr>nextExecutionAt := nxt\<rparr>))\<rparr>) of
               Inl e \<Rightarrow> Inl e
             | Inr w2 \<Rightarrow>
                 Inr (w2\<lparr>events := events w2 @
                        [SubscriptionExecuted i j (amountPerPeriod (subscriptions w2 i j))],
                      status := NOT_ENTERED\<rparr>)))
    \<and> ((\<forall>m d x. subscriptions (snd (ext m d x)) = subscriptions x)
          \<and> executeSubscription cx ext i j data w = Inr w' \<longrightarrow>
          subscriptions w' i j = sub\<lparr>nextExecutionAt := nxt\<rparr>)"
proof (intro conjI impI)
  show "dispatch cx ext s1 (Call_executeSubscription i j data) w
           = dispatch cx ext s2 (Call_executeSubscription i j data) w"
    by simp
next
  assume "\<not> subActive sub"
  with assms(3,4) show
    "executeSubscription cx ext i j data w = Inl (RequireFailed ''Subscription inactive'')"
    by (simp add: executeSubscription_def agentExists_def nonReentrant_def sub_def)
next
  assume "subActive sub \<and> merchant sub = 0"
  with assms(3,4) show
    "executeSubscription cx ext i j data w = Inl (RequireFailed ''Subscription not found'')"
    by (simp add: executeSubscription_def agentExists_def nonReentrant_def sub_def)
next
  assume "subActive sub \<and> merchant sub \<noteq> 0 \<and> timestamp cx < ucast (nextExecutionAt sub)"
  with assms(3,4) show
    "executeSubscription cx ext i j data w = Inl (RequireFailed ''Too early'')"
    by (simp add: executeSubscription_def agentExists_def nonReentrant_def sub_def)
next
  assume a: "subActive sub \<and> merchant sub \<noteq> 0 \<and> \<not> timestamp cx < ucast (nextExecutionAt sub)
     \<and> unat (timestamp cx) + unat (periodSeconds sub) < 2 ^ 256"
  then have "checked_add (timestamp cx) (ucast (periodSeconds sub))
      = Some (timestamp cx + ucast (periodSeconds sub))"
    by (simp add: checked_add_def unat_period)
  with a assms(3,4) show "executeSubscription cx ext i j data w =
            (case processPayment cx ext i (merchant sub) (amountPerPeriod sub) data
                    (w\<lparr>status := ENTERED,
                       subscriptions := (subscriptions w)(i := (subscriptions w i)
                         (j := sub\<lparr>nextExecutionAt := nxt\<rparr>))\<rparr>) of
               Inl e \<Rightarrow> Inl e
             | Inr w2 \<Rightarrow>
                 Inr (w2\<lparr>events := events w2 @
                        [SubscriptionExecuted i j (amountPerPeriod (subscriptions w2 i j))],
                      status := NOT_ENTERED\<rparr>))"
    by (simp add: executeSubscription_def agentExists_def nonReentrant_def Let_def
        sub_def nxt_def leD split: sum.splits)
next
  assume a: "(\<forall>m d x. subscriptions (snd (ext m d x)) = subscriptions x)
     \<and> executeSubscription cx ext i j data w = Inr w'"
  then obtain t w2 where
    t: "checked_add (timestamp cx) (ucast (periodSeconds sub)) = Some t"
    and p: "processPayment cx ext i (merchant sub) (amountPerPeriod sub) data
              (w\<lparr>status := ENTERED,
                 subscriptions := (subscriptions w)(i := (subscriptions w i)
                   (j := sub\<lparr>nextExecutionAt := ucast t\<rparr>))\<rparr>) = Inr w2"
    and w': "subscriptions w' = subscriptions w2"
    by (auto simp: executeSubscription_def agentExists_def nonReentrant_def Let_def sub_def
        split: if_splits option.splits sum.splits)
  from checked_add_Some [OF t] have "t = timestamp cx + ucast (periodSeconds sub)"
    by simp
  moreover from a have "\<And>m d x. subscriptions (snd (ext m d x)) = subscriptions x"
    by simp
  from processPayment_subscriptions [OF this p]
  have "subscriptions w2 i j = sub\<lparr>nextExecutionAt := ucast t\<rparr>"
    by simp
  ultimately show "subscriptions w' i j = sub\<lparr>nextExecutionAt := nxt\<rparr>"
    using w' by (simp add: nxt_def sub_def)
qed

text \<open>At the concrete world with a subscription: executed by an address that is neither
  owner nor delegate, at time 100000, the call succeeds; at time 50 it fails as too early.\<close>

theorem C8_executeSubscription_witness:
  "owner (agents world_sub 1) \<noteq> 0 \<and> status world_sub \<noteq> ENTERED
   \<and> subActive (subscriptions world_sub 1 1) \<and> merchant (subscriptions world_sub 1 1) \<noteq> 0
   \<and> timestamp cx_early < ucast (nextExecutionAt (subscriptions world_sub 1 1))
   \<and> executeSubscription cx_early ext_ok 1 1 [] world_sub = Inl (RequireFailed ''Too early'')
   \<and> \<not> subActive (subscriptions world_sub 1 2)
   \<and> executeSubscription cx0 ext_ok 1 2 [] world_sub
       = Inl (RequireFailed ''Subscription inactive'')
   \<and> (\<forall>m d x. subscriptions (snd (ext_ok m d x)) = subscriptions x)
   \<and> executeSubscription cx0 ext_ok 1 1 [] world_sub
       = Inr (fst (exec cx0 ext_ok 77 (Call_executeSubscription 1 1 []) world_sub))
   \<and> subscriptions (fst (exec cx0 ext_ok 77 (Call_executeSubscription 1 1 []) world_sub)) 1 1
       = sub0\<lparr>nextExecutionAt := 100060\<rparr>"
proof -
  have h: "owner (agents world_sub 1) \<noteq> 0" "status world_sub \<noteq> ENTERED"
    by (simp_all add: world_sub_def example_defs NOT_ENTERED_def ENTERED_def)
  have s: "subscriptions world_sub 1 1 = sub0" "subscriptions world_sub 1 2 = zeroSubscription"
    by (simp_all add: world_sub_def)
  have e: "subActive (subscriptions world_sub 1 1)" "merchant (subscriptions world_sub 1 1) \<noteq> 0"
    "timestamp cx_early < ucast (nextExecutionAt (subscriptions world_sub 1 1))"
    "\<not> subActive (subscriptions world_sub 1 2)"
    unfolding s by (simp_all add: sub0_def shop_def cx_early_def zeroSubscription_def)
  have x: "\<forall>m d x. subscriptions (snd (ext_ok m d x)) = subscriptions x"
    by (simp add: ext_ok_def)
  have r: "executeSubscription cx0 ext_ok 1 1 [] world_sub
       = Inr (fst (exec cx0 ext_ok 77 (Call_executeSubscription 1 1 []) world_sub))"
    by (simp add: exec_def executeSubscription_def processPayment_def settle_def wallet_defs
        token_defs world_sub_def sub0_def example_defs Let_def)
  have n: "(ucast (timestamp cx0 + ucast (periodSeconds (subscriptions world_sub 1 1))) :: uint64)
       = 100060"
    unfolding s by (simp add: cx0_def sub0_def)
  note th1 = C8_executeSubscription [OF h, where cx = cx_early and ext = ext_ok and j = 1
      and data = "[]"]
  note th2 = C8_executeSubscription [OF h, where cx = cx0 and ext = ext_ok and j = 2
      and data = "[]"]
  note th3 = C8_executeSubscription [OF h, where cx = cx0 and ext = ext_ok and j = 1
      and data = "[]"
      and w' = "fst (exec cx0 ext_ok 77 (Call_executeSubscription 1 1 []) world_sub)"]
  have c1: "executeSubscription cx_early ext_ok 1 1 [] world_sub = Inl (RequireFailed ''Too early'')"
    using th1 e by blast
  have c2: "executeSubscription cx0 ext_ok 1 2 [] world_sub
       = Inl (RequireFailed ''Subscription inactive'')"
    using th2 e by blast
  have "subscriptions (fst (exec cx0 ext_ok 77 (Call_executeSubscription 1 1 []) world_sub)) 1 1
       = (subscriptions world_sub 1 1)\<lparr>nextExecutionAt :=
            ucast (timestamp cx0 + ucast (periodSeconds (subscriptions world_sub 1 1)))\<rparr>"
    using th3 x r by blast
  then have c3: "subscriptions (fst (exec cx0 ext_ok 77 (Call_executeSubscription 1 1 []) world_sub)) 1 1
       = sub0\<lparr>nextExecutionAt := 100060\<rparr>"
    unfolding n by (simp add: s)
  from h e c1 c2 x r c3 show ?thesis by blast
qed

text \<open>
  The claim as written fails when a subscription is executed late. At the concrete world
  the subscription was due at time 100 with a period of 60; executed at time 100000 the
  call succeeds and leaves \<open>nextExecutionAt = 100060\<close>, not \<open>100 + 60\<close>.
\<close>

theorem C8_late_execution_counterexample:
  "snd (exec cx0 ext_ok 77 (Call_executeSubscription 1 1 []) world_sub) = Inr None
   \<and> nextExecutionAt
        (subscriptions (fst (exec cx0 ext_ok 77 (Call_executeSubscription 1 1 []) world_sub)) 1 1)
       = 100060
   \<and> nextExecutionAt (subscriptions world_sub 1 1) + periodSeconds (subscriptions world_sub 1 1)
       = 160
   \<and> (100060 :: uint64) \<noteq> 160"
  by (simp add: exec_def executeSubscription_def processPayment_def settle_def wallet_defs
      token_defs world_sub_def sub0_def example_defs Let_def)


section \<open>The daily window\<close>







lemma window_inv_token [simp]: "window_inv i l es (w\<lparr>token := t\<rparr>) = window_inv i l es w"
  by (simp add: window_inv_def)

lemma window_inv_status [simp]: "window_inv i l es (w\<lparr>status := x\<rparr>) = window_inv i l es w"
  by (simp add: window_inv_def)

lemma window_inv_balances [simp]: "window_inv i l es (w\<lparr>balances := b\<rparr>) = window_inv i l es w"
  by (simp add: window_inv_def)

lemma window_inv_subscriptions [simp]:
  "window_inv i l es (w\<lparr>subscriptions := s\<rparr>) = window_inv i l es w"
  by (simp add: window_inv_def)














section \<open>Failure atomicity\<close>

text \<open>The settlement succeeds only when every interaction with the token and with the
  merchant succeeds.\<close>

lemma settle_Inr:
  assumes "settle cx ext m amount data x = Inr x'"
  shows "(data = [] \<longrightarrow>
            (\<exists>t'. transfer (usdc cx) (wallet_address cx) m amount (token x) = Some (True, t')
                 \<and> x' = x\<lparr>token := t'\<rparr>))
       \<and> (data \<noteq> [] \<longrightarrow>
            (\<exists>a t1 t2. allowance (usdc cx) (wallet_address cx) m (token x) = Some a
                 \<and> (a \<noteq> 0 \<longrightarrow> approve (usdc cx) (wallet_address cx) m 0 (token x) = Some (True, t1))
                 \<and> (a = 0 \<longrightarrow> t1 = token x)
                 \<and> approve (usdc cx) (wallet_address cx) m amount t1 = Some (True, t2)
                 \<and> ext m data (x\<lparr>token := t2\<rparr>) = (True, x')))"
proof (cases "data = []")
  case True
  with assms show ?thesis
    by (auto simp: settle_def split: option.splits if_splits)
next
  case False
  with assms obtain a where a: "allowance (usdc cx) (wallet_address cx) m (token x) = Some a"
    by (auto simp: settle_def split: option.splits)
  show ?thesis
  proof (cases "a = 0")
    case True
    with assms False a obtain t2 where
      "approve (usdc cx) (wallet_address cx) m amount (token x) = Some (True, t2)"
      "ext m data (x\<lparr>token := t2\<rparr>) = (True, x')"
      by (auto simp: settle_def split: option.splits if_splits prod.splits)
    with a True False show ?thesis by auto
  next
    case nz: False
    with assms False a obtain t1 where
      t1: "approve (usdc cx) (wallet_address cx) m 0 (token x) = Some (True, t1)"
      by (auto simp: settle_def split: option.splits if_splits prod.splits)
    with assms False a nz obtain t2 where
      "approve (usdc cx) (wallet_address cx) m amount t1 = Some (True, t2)"
      "ext m data (x\<lparr>token := t2\<rparr>) = (True, x')"
      by (auto simp: settle_def split: option.splits if_splits prod.splits)
    with a t1 nz False show ?thesis by auto
  qed
qed

text \<open>After the entry checks, \<^verbatim>\<open>executeSubscription\<close> writes the next execution time and
  runs \<^verbatim>\<open>_processPayment\<close> under the latch.\<close>

lemma executeSubscription_entry:
  assumes "owner (agents w i) \<noteq> 0" "status w \<noteq> ENTERED"
    "subActive (subscriptions w i j)" "merchant (subscriptions w i j) \<noteq> 0"
    "\<not> timestamp cx < ucast (nextExecutionAt (subscriptions w i j))"
    "checked_add (timestamp cx) (ucast (periodSeconds (subscriptions w i j))) = Some t"
  shows "executeSubscription cx ext i j data w =
     (case processPayment cx ext i (merchant (subscriptions w i j))
             (amountPerPeriod (subscriptions w i j)) data
             (w\<lparr>status := ENTERED,
                subscriptions := (subscriptions w)(i := (subscriptions w i)
                  (j := (subscriptions w i j)\<lparr>nextExecutionAt := ucast t\<rparr>))\<rparr>) of
        Inl e \<Rightarrow> Inl e
      | Inr w2 \<Rightarrow>
          Inr (w2\<lparr>events := events w2 @
                  [SubscriptionExecuted i j (amountPerPeriod (subscriptions w2 i j))],
                 status := NOT_ENTERED\<rparr>))"
  using assms
  by (simp add: executeSubscription_def agentExists_def nonReentrant_def Let_def
      split: sum.splits)

text \<open>A committed funding call has moved the tokens and written the balance.\<close>

lemma deposit_Inr:
  assumes "deposit cx sender i amount w = Inr w'"
  shows "\<exists>t'. transferFrom (usdc cx) (wallet_address cx) sender (wallet_address cx) amount
            (token w) = Some (True, t')
         \<and> token w' = t' \<and> balances w' = (balances w)(i := balances w i + amount)"
  using assms
  by (auto simp: deposit_def agentExists_def onlyAgentOwner_def nonReentrant_def
      dest!: checked_add_Some split: if_splits option.splits sum.splits)

lemma withdraw_Inr:
  assumes "withdraw cx sender i amount w = Inr w'"
  shows "\<exists>t'. transfer (usdc cx) (wallet_address cx) sender amount (token w) = Some (True, t')
         \<and> token w' = t' \<and> balances w' = (balances w)(i := balances w i - amount)"
  using assms
  by (auto simp: withdraw_def agentExists_def onlyAgentOwner_def nonReentrant_def
      checked_sub_def split: if_splits option.splits sum.splits)

lemma emergencyWithdraw_Inr:
  assumes "emergencyWithdraw cx sender i w = Inr w'"
  shows "\<exists>t'. transfer (usdc cx) (wallet_address cx) sender (balances w i) (token w)
            = Some (True, t')
         \<and> token w' = t' \<and> balances w' = (balances w)(i := 0)"
  using assms
  by (auto simp: emergencyWithdraw_def agentExists_def onlyAgentOwner_def nonReentrant_def
      Let_def split: if_splits option.splits sum.splits)

text \<open>
  Claim C2. A call is all or nothing.
  \<^item> Whatever the call, the caller, the code outside and the starting world \<open>w\<close>: when the
    call fails, with any error, the world after it is \<open>w\<close>: agent records with their
    policies, balances, whitelist, subscriptions, latch, token and events.
  \<^item> The settlement of a payment returns without error only when the token accepted the
    transfer (payment without payload) or when the token accepted the approvals and the code
    of the merchant returned success (payment with a payload); in every other case it
    fails.
  \<^item> In a world \<open>x\<close> where the checks of \<^verbatim>\<open>_processPayment\<close> pass, the settlement runs in
    the committed world \<open>xc\<close>, which holds the debit and the spend and so differs from
    \<open>x\<close> when the amount is not zero; a failure of the settlement is the failure of
    \<^verbatim>\<open>_processPayment\<close>.
  \<^item> A failure of \<^verbatim>\<open>_processPayment\<close> inside \<^verbatim>\<open>pay\<close>, after the entry validation, and inside
    \<^verbatim>\<open>executeSubscription\<close>, after the next execution time is written, is the failure of
    the call, which leaves \<open>w\<close>.
  \<^item> \<^verbatim>\<open>deposit\<close>, \<^verbatim>\<open>withdraw\<close> and \<^verbatim>\<open>emergencyWithdraw\<close> return without error only when the
    token accepted the transfer, and then both the token and the balance are written.
\<close>

theorem C2_all_or_nothing:
  fixes w x :: "'t world" and cx :: "'t ctx" and i j amount :: uint256
  defines "p \<equiv> policy (agents (resetIfNeeded (timestamp cx) i x) i)"
  defines "xc \<equiv> set_policy i (p\<lparr>spentToday := spentToday p + amount\<rparr>)
                  ((resetIfNeeded (timestamp cx) i x)
                     \<lparr>balances := (balances x)(i := balances x i - amount)\<rparr>)"
  defines "sub \<equiv> subscriptions w i j"
  shows "(snd (exec cx ext sender c w) = Inl e \<longrightarrow> fst (exec cx ext sender c w) = w)
    \<and> (settle cx ext m amount data x = Inr x' \<longrightarrow>
         (data = [] \<longrightarrow>
            (\<exists>t'. transfer (usdc cx) (wallet_address cx) m amount (token x) = Some (True, t')
                 \<and> x' = x\<lparr>token := t'\<rparr>))
         \<and> (data \<noteq> [] \<longrightarrow>
            (\<exists>t1 t2. approve (usdc cx) (wallet_address cx) m amount t1 = Some (True, t2)
                 \<and> ext m data (x\<lparr>token := t2\<rparr>) = (True, x'))))
    \<and> (active p \<and> merchantWhitelist x i m \<and> \<not> perTxLimit p < amount
        \<and> unat (spentToday p) + unat amount \<le> unat (dailyLimit p) \<and> \<not> balances x i < amount
        \<longrightarrow>
          balances xc i = balances x i - amount
          \<and> spentToday (policy (agents xc i)) = spentToday p + amount
          \<and> (amount \<noteq> 0 \<longrightarrow> xc \<noteq> x)
          \<and> (settle cx ext m amount data xc = Inl e \<longrightarrow>
                processPayment cx ext i m amount data x = Inl e))
    \<and> (owner (agents w i) \<noteq> 0 \<and> agent (agents w i) = sender \<and> status w \<noteq> ENTERED
        \<and> m \<noteq> 0 \<and> amount \<noteq> 0
        \<and> processPayment cx ext i m amount data (w\<lparr>status := ENTERED\<rparr>) = Inl e \<longrightarrow>
          exec cx ext sender (Call_pay i m amount data) w = (w, Inl e))
    \<and> (owner (agents w i) \<noteq> 0 \<and> status w \<noteq> ENTERED \<and> subActive sub \<and> merchant sub \<noteq> 0
        \<and> \<not> timestamp cx < ucast (nextExecutionAt sub)
        \<and> checked_add (timestamp cx) (ucast (periodSeconds sub)) = Some t
        \<and> processPayment cx ext i (merchant sub) (amountPerPeriod sub) data
             (w\<lparr>status := ENTERED,
                subscriptions := (subscriptions w)(i := (subscriptions w i)
                  (j := sub\<lparr>nextExecutionAt := ucast t\<rparr>))\<rparr>) = Inl e \<longrightarrow>
          exec cx ext sender (Call_executeSubscription i j data) w = (w, Inl e))
    \<and> (snd (exec cx ext sender (Call_deposit i amount) w) = Inr v \<longrightarrow>
          (\<exists>t'. transferFrom (usdc cx) (wallet_address cx) sender (wallet_address cx) amount
                   (token w) = Some (True, t')
               \<and> token (fst (exec cx ext sender (Call_deposit i amount) w)) = t')
          \<and> balances (fst (exec cx ext sender (Call_deposit i amount) w))
              = (balances w)(i := balances w i + amount))
    \<and> (snd (exec cx ext sender (Call_withdraw i amount) w) = Inr v \<longrightarrow>
          (\<exists>t'. transfer (usdc cx) (wallet_address cx) sender amount (token w) = Some (True, t')
               \<and> token (fst (exec cx ext sender (Call_withdraw i amount) w)) = t')
          \<and> balances (fst (exec cx ext sender (Call_withdraw i amount) w))
              = (balances w)(i := balances w i - amount))
    \<and> (snd (exec cx ext sender (Call_emergencyWithdraw i) w) = Inr v \<longrightarrow>
          (\<exists>t'. transfer (usdc cx) (wallet_address cx) sender (balances w i) (token w)
                   = Some (True, t')
               \<and> token (fst (exec cx ext sender (Call_emergencyWithdraw i) w)) = t')
          \<and> balances (fst (exec cx ext sender (Call_emergencyWithdraw i) w))
              = (balances w)(i := 0))"
proof -
  have c1: "snd (exec cx ext sender c w) = Inl e \<longrightarrow> fst (exec cx ext sender c w) = w"
    by (simp add: exec_def split: sum.splits prod.splits)
  have c2: "settle cx ext m amount data x = Inr x' \<longrightarrow>
         (data = [] \<longrightarrow>
            (\<exists>t'. transfer (usdc cx) (wallet_address cx) m amount (token x) = Some (True, t')
                 \<and> x' = x\<lparr>token := t'\<rparr>))
         \<and> (data \<noteq> [] \<longrightarrow>
            (\<exists>t1 t2. approve (usdc cx) (wallet_address cx) m amount t1 = Some (True, t2)
                 \<and> ext m data (x\<lparr>token := t2\<rparr>) = (True, x')))"
    using settle_Inr [of cx ext m amount data x x'] by blast
  have c3: "balances xc i = balances x i - amount
          \<and> spentToday (policy (agents xc i)) = spentToday p + amount
          \<and> (amount \<noteq> 0 \<longrightarrow> xc \<noteq> x)
          \<and> (settle cx ext m amount data xc = Inl e \<longrightarrow>
                processPayment cx ext i m amount data x = Inl e)"
    if a: "active p \<and> merchantWhitelist x i m \<and> \<not> perTxLimit p < amount
        \<and> unat (spentToday p) + unat amount \<le> unat (dailyLimit p) \<and> \<not> balances x i < amount"
  proof -
    have b: "balances xc i = balances x i - amount"
      and s: "spentToday (policy (agents xc i)) = spentToday p + amount"
      by (simp_all add: xc_def set_policy_def)
    have "balances xc i \<noteq> balances x i" if "amount \<noteq> 0"
      using that b by simp
    then have d: "amount \<noteq> 0 \<longrightarrow> xc \<noteq> x"
      by auto
    have "processPayment cx ext i m amount data x =
       (case settle cx ext m amount data xc of
          Inl e \<Rightarrow> Inl e
        | Inr w' \<Rightarrow> Inr (w'\<lparr>events := events w' @ [AgentPayment i m amount data]\<rparr>))"
      unfolding xc_def p_def
      by (rule processPayment_commit) (use a in \<open>simp_all add: p_def\<close>)
    then have "settle cx ext m amount data xc = Inl e \<longrightarrow>
                processPayment cx ext i m amount data x = Inl e"
      by simp
    with b s d show ?thesis by simp
  qed
  have c4: "exec cx ext sender (Call_pay i m amount data) w = (w, Inl e)"
    if a: "owner (agents w i) \<noteq> 0 \<and> agent (agents w i) = sender \<and> status w \<noteq> ENTERED
        \<and> m \<noteq> 0 \<and> amount \<noteq> 0
        \<and> processPayment cx ext i m amount data (w\<lparr>status := ENTERED\<rparr>) = Inl e"
  proof -
    have "pay cx ext sender i m amount data w =
     (case processPayment cx ext i m amount data (w\<lparr>status := ENTERED\<rparr>) of
        Inl e \<Rightarrow> Inl e
      | Inr w' \<Rightarrow> Inr (w'\<lparr>status := NOT_ENTERED\<rparr>))"
      by (rule pay_entry) (use a in simp_all)
    with a show ?thesis
      by (simp add: exec_def no_value_def)
  qed
  have c5: "exec cx ext sender (Call_executeSubscription i j data) w = (w, Inl e)"
    if a: "owner (agents w i) \<noteq> 0 \<and> status w \<noteq> ENTERED \<and> subActive sub \<and> merchant sub \<noteq> 0
        \<and> \<not> timestamp cx < ucast (nextExecutionAt sub)
        \<and> checked_add (timestamp cx) (ucast (periodSeconds sub)) = Some t
        \<and> processPayment cx ext i (merchant sub) (amountPerPeriod sub) data
             (w\<lparr>status := ENTERED,
                subscriptions := (subscriptions w)(i := (subscriptions w i)
                  (j := sub\<lparr>nextExecutionAt := ucast t\<rparr>))\<rparr>) = Inl e"
  proof -
    have "executeSubscription cx ext i j data w =
     (case processPayment cx ext i (merchant (subscriptions w i j))
             (amountPerPeriod (subscriptions w i j)) data
             (w\<lparr>status := ENTERED,
                subscriptions := (subscriptions w)(i := (subscriptions w i)
                  (j := (subscriptions w i j)\<lparr>nextExecutionAt := ucast t\<rparr>))\<rparr>) of
        Inl e \<Rightarrow> Inl e
      | Inr w2 \<Rightarrow>
          Inr (w2\<lparr>events := events w2 @
                  [SubscriptionExecuted i j (amountPerPeriod (subscriptions w2 i j))],
                 status := NOT_ENTERED\<rparr>))"
      by (rule executeSubscription_entry) (use a in \<open>simp_all add: sub_def\<close>)
    with a show ?thesis
      by (simp add: exec_def no_value_def sub_def)
  qed
  have c6: "(\<exists>t'. transferFrom (usdc cx) (wallet_address cx) sender (wallet_address cx) amount
                   (token w) = Some (True, t')
               \<and> token (fst (exec cx ext sender (Call_deposit i amount) w)) = t')
          \<and> balances (fst (exec cx ext sender (Call_deposit i amount) w))
              = (balances w)(i := balances w i + amount)"
    if a: "snd (exec cx ext sender (Call_deposit i amount) w) = Inr v"
  proof -
    from a obtain w' where r: "deposit cx sender i amount w = Inr w'"
      and f: "fst (exec cx ext sender (Call_deposit i amount) w) = w'"
      by (auto simp: exec_def no_value_def split: sum.splits)
    from deposit_Inr [OF r] f show ?thesis by auto
  qed
  have c7: "(\<exists>t'. transfer (usdc cx) (wallet_address cx) sender amount (token w) = Some (True, t')
               \<and> token (fst (exec cx ext sender (Call_withdraw i amount) w)) = t')
          \<and> balances (fst (exec cx ext sender (Call_withdraw i amount) w))
              = (balances w)(i := balances w i - amount)"
    if a: "snd (exec cx ext sender (Call_withdraw i amount) w) = Inr v"
  proof -
    from a obtain w' where r: "withdraw cx sender i amount w = Inr w'"
      and f: "fst (exec cx ext sender (Call_withdraw i amount) w) = w'"
      by (auto simp: exec_def no_value_def split: sum.splits)
    from withdraw_Inr [OF r] f show ?thesis by auto
  qed
  have c8: "(\<exists>t'. transfer (usdc cx) (wallet_address cx) sender (balances w i) (token w)
                   = Some (True, t')
               \<and> token (fst (exec cx ext sender (Call_emergencyWithdraw i) w)) = t')
          \<and> balances (fst (exec cx ext sender (Call_emergencyWithdraw i) w))
              = (balances w)(i := 0)"
    if a: "snd (exec cx ext sender (Call_emergencyWithdraw i) w) = Inr v"
  proof -
    from a obtain w' where r: "emergencyWithdraw cx sender i w = Inr w'"
      and f: "fst (exec cx ext sender (Call_emergencyWithdraw i) w) = w'"
      by (auto simp: exec_def no_value_def split: sum.splits)
    from emergencyWithdraw_Inr [OF r] f show ?thesis by auto
  qed
  show ?thesis
  proof (intro conjI)
    show "snd (exec cx ext sender c w) = Inl e \<longrightarrow> fst (exec cx ext sender c w) = w"
      by (rule c1)
  qed (use c2 c3 c4 c5 c6 c7 c8 in blast)+
qed

text \<open>At the concrete deployment, a payment of 200000 with a payload to a merchant whose code
  fails passes the entry validation and every check, is committed, fails in the settlement
  and leaves the world as it was; a withdrawal of 1000 by the owner succeeds and writes the
  balance.\<close>

theorem C2_all_or_nothing_witness:
  "owner (agents world0 1) \<noteq> 0 \<and> agent (agents world0 1) = delegate0
   \<and> status world0 \<noteq> ENTERED \<and> shop \<noteq> 0 \<and> (200000 :: uint256) \<noteq> 0
   \<and> processPayment cx0 ext_fail 1 shop 200000 [1] (world0\<lparr>status := ENTERED\<rparr>)
       = Inl (RequireFailed ''Merchant call failed'')
   \<and> exec cx0 ext_fail delegate0 (Call_pay 1 shop 200000 [1]) world0
       = (world0, Inl (RequireFailed ''Merchant call failed''))
   \<and> snd (exec cx0 ext_fail alice (Call_withdraw 1 1000) world0) = Inr None
   \<and> balances (fst (exec cx0 ext_fail alice (Call_withdraw 1 1000) world0)) 1 = 999000"
proof -
  let ?x = "world0\<lparr>status := ENTERED\<rparr>"
  let ?p = "policy (agents (resetIfNeeded (timestamp cx0) 1 ?x) 1)"
  let ?xc = "set_policy 1 (?p\<lparr>spentToday := spentToday ?p + 200000\<rparr>)
               ((resetIfNeeded (timestamp cx0) 1 ?x)
                  \<lparr>balances := (balances ?x)(1 := balances ?x 1 - 200000)\<rparr>)"
  have v: "owner (agents world0 1) \<noteq> 0" "agent (agents world0 1) = delegate0"
    "status world0 \<noteq> ENTERED" "shop \<noteq> 0" "(200000 :: uint256) \<noteq> 0"
    by (simp_all add: example_defs NOT_ENTERED_def ENTERED_def)
  have p: "?p = policy0\<lparr>spentToday := 0, lastReset := 100000\<rparr>"
    by (simp add: reset_policy reset_due_def one_day_def example_defs)
  have k: "active ?p" "merchantWhitelist ?x 1 shop" "\<not> perTxLimit ?p < 200000"
    "unat (spentToday ?p) + unat (200000 :: uint256) \<le> unat (dailyLimit ?p)"
    "\<not> balances ?x 1 < 200000"
    unfolding p by (simp_all add: example_defs)
  have s: "settle cx0 ext_fail shop 200000 [1] ?xc = Inl (RequireFailed ''Merchant call failed'')"
    by (simp add: settle_def wallet_defs token_defs example_defs Let_def)
  have d: "snd (exec cx0 ext_fail alice (Call_withdraw 1 1000) world0) = Inr None"
    by (simp add: exec_def withdraw_def wallet_defs token_defs example_defs)
  note th = C2_all_or_nothing [where w = world0 and cx = cx0 and ext = ext_fail and i = 1
      and m = shop and amount = 200000 and data = "[1]" and x = ?x and sender = delegate0
      and e = "RequireFailed ''Merchant call failed''"]
  have "active ?p \<and> merchantWhitelist ?x 1 shop \<and> \<not> perTxLimit ?p < 200000
      \<and> unat (spentToday ?p) + unat (200000 :: uint256) \<le> unat (dailyLimit ?p)
      \<and> \<not> balances ?x 1 < 200000"
    by (intro conjI) (rule k)+
  note c3 = th [THEN conjunct2, THEN conjunct2, THEN conjunct1, THEN mp, OF this]
  have f: "processPayment cx0 ext_fail 1 shop 200000 [1] ?x
      = Inl (RequireFailed ''Merchant call failed'')"
    by (rule c3 [THEN conjunct2, THEN conjunct2, THEN conjunct2, THEN mp, OF s])
  have "owner (agents world0 1) \<noteq> 0 \<and> agent (agents world0 1) = delegate0
      \<and> status world0 \<noteq> ENTERED \<and> shop \<noteq> 0 \<and> (200000 :: uint256) \<noteq> 0
      \<and> processPayment cx0 ext_fail 1 shop 200000 [1] ?x
          = Inl (RequireFailed ''Merchant call failed'')"
    by (intro conjI) (rule v f)+
  note c4 = th [THEN conjunct2, THEN conjunct2, THEN conjunct2, THEN conjunct1, THEN mp, OF this]
  have g: "exec cx0 ext_fail delegate0 (Call_pay 1 shop 200000 [1]) world0
       = (world0, Inl (RequireFailed ''Merchant call failed''))"
    by (rule c4)
  note c7 = C2_all_or_nothing [where w = world0 and cx = cx0 and ext = ext_fail and i = 1
      and amount = 1000 and sender = alice and v = None, THEN conjunct2, THEN conjunct2,
      THEN conjunct2, THEN conjunct2, THEN conjunct2, THEN conjunct2, THEN conjunct1,
      THEN mp, OF d]
  have "balances (fst (exec cx0 ext_fail alice (Call_withdraw 1 1000) world0))
      = (balances world0)(1 := balances world0 1 - 1000)"
    by (rule c7 [THEN conjunct2])
  then have h: "balances (fst (exec cx0 ext_fail alice (Call_withdraw 1 1000) world0)) 1 = 999000"
    by (simp add: example_defs)
  show ?thesis
    by (intro conjI) (rule v f g d h)+
qed

end
